theory Spec2Isabelle
  imports Main "HOL-Library.AList"
begin

section \<open>The router: a prefix trie per HTTP method\<close>

text \<open>
  \<^verbatim>\<open>class Node\<close> of the source: \<^verbatim>\<open>part\<close>, \<^verbatim>\<open>isParam\<close>, \<^verbatim>\<open>paramName\<close>,
  \<^verbatim>\<open>children\<close> (an object used as a dictionary from segment text to child node),
  \<^verbatim>\<open>paramChild\<close> (null or a node) and \<^verbatim>\<open>store\<close> (null or the route record).
  The association list \<open>children\<close> holds the own properties of the dictionary in
  insertion order. Stored records are objects, so \<^verbatim>\<open>node.store ? ... : null\<close> tests
  presence.
\<close>

datatype 'r node = Node
  (part: string)
  (isParam: bool)
  (paramName: string)
  (children: "(string \<times> 'r node) list")
  (paramChild: "'r node option")
  (store: "'r option")

definition new_Node :: "string \<Rightarrow> bool \<Rightarrow> 'r node" where
  "new_Node p ip = Node p ip [] [] None None"

text \<open>\<^verbatim>\<open>path.split('/')\<close>: the pieces between the separators, empty pieces included.\<close>

fun split_on :: "char \<Rightarrow> string \<Rightarrow> string list" where
  "split_on sep [] = [[]]"
| "split_on sep (c # cs) =
     (if c = sep then [] # split_on sep cs
      else (case split_on sep cs of
              [] \<Rightarrow> [[c]]
            | w # ws \<Rightarrow> (c # w) # ws))"

text \<open>\<^verbatim>\<open>path.split('/').filter(p => p.length > 0)\<close>\<close>

definition path_parts :: "string \<Rightarrow> string list" where
  "path_parts path = filter (\<lambda>p. length p > 0) (split_on CHR ''/'' path)"

text \<open>\<^verbatim>\<open>part.startsWith(':')\<close> and \<^verbatim>\<open>part.slice(1)\<close>\<close>

definition startsWith_colon :: "string \<Rightarrow> bool" where
  "startsWith_colon p = (case p of [] \<Rightarrow> False | c # _ \<Rightarrow> c = CHR '':'')"

definition slice1 :: "string \<Rightarrow> string" where
  "slice1 p = drop 1 p"

subsection \<open>What a dictionary inherits\<close>

text \<open>
  \<^verbatim>\<open>children\<close> is created as \<^verbatim>\<open>{}\<close>, so reading \<^verbatim>\<open>node.children[part]\<close> finds, after
  the own properties, the properties of \<^verbatim>\<open>Object.prototype\<close>: eleven functions and the
  accessor \<^verbatim>\<open>__proto__\<close>, which yields \<^verbatim>\<open>Object.prototype\<close> itself. All twelve values
  are truthy, and none of them is a node: they have no \<^verbatim>\<open>children\<close>, and they get a
  \<^verbatim>\<open>paramChild\<close> or a \<^verbatim>\<open>store\<close> only when \<^verbatim>\<open>insert\<close> assigns one. These objects are
  shared by every router of the process.
\<close>

definition object_prototype_names :: "string list" where
  "object_prototype_names =
     [''constructor'', ''__defineGetter__'', ''__defineSetter__'', ''hasOwnProperty'',
      ''__lookupGetter__'', ''__lookupSetter__'', ''isPrototypeOf'', ''propertyIsEnumerable'',
      ''toString'', ''valueOf'', ''__proto__'', ''toLocaleString'']"

text \<open>
  The objects outside the tries that a walk can come to: a member of
  \<^verbatim>\<open>Object.prototype\<close> by its name (\<open>Member ''__proto__''\<close> is \<^verbatim>\<open>Object.prototype\<close>
  itself), and \<open>Held\<close>, the record that \<^verbatim>\<open>Object.prototype.store\<close> holds once an insert
  has ended at \<^verbatim>\<open>Object.prototype\<close>. \<open>realm\<close> keeps the properties that inserts have
  given them; an object that is not listed has none.
\<close>

datatype owner = Member string | Held

record 'r foreign =
  own_paramChild :: "'r node option"
  own_store :: "'r option"

type_synonym 'r realm = "(owner \<times> 'r foreign) list"

definition new_realm :: "'r realm" where
  "new_realm = []"

definition object_of :: "'r realm \<Rightarrow> owner \<Rightarrow> 'r foreign" where
  "object_of rl ow =
     (case map_of rl ow of
        None \<Rightarrow> \<lparr> own_paramChild = None, own_store = None \<rparr>
      | Some f \<Rightarrow> f)"

definition proto :: owner where
  "proto = Member ''__proto__''"

text \<open>
  Where the variable \<^verbatim>\<open>node\<close> of a walk points once it has left the router's own trie:
  \<open>On ow\<close> is the object \<open>ow\<close>, \<open>Below ow es\<close> the node reached from the \<^verbatim>\<open>paramChild\<close>
  of \<open>ow\<close> along the edges \<open>es\<close>.
\<close>

datatype edge = Lit string | Par

datatype cursor = On owner | Below owner "edge list"

fun descend :: "'r node \<Rightarrow> edge list \<Rightarrow> 'r node option" where
  "descend n [] = Some n"
| "descend n (Lit k # es) =
     (case map_of (children n) k of None \<Rightarrow> None | Some c \<Rightarrow> descend c es)"
| "descend n (Par # es) =
     (case paramChild n of None \<Rightarrow> None | Some c \<Rightarrow> descend c es)"

fun amend :: "('r node \<Rightarrow> 'r node) \<Rightarrow> 'r node \<Rightarrow> edge list \<Rightarrow> 'r node" where
  "amend f n [] = f n"
| "amend f (Node p ip pn ch pc st) (Lit k # es) =
     (case map_of ch k of
        None \<Rightarrow> Node p ip pn ch pc st
      | Some c \<Rightarrow> Node p ip pn (AList.update k (amend f c es) ch) pc st)"
| "amend f (Node p ip pn ch pc st) (Par # es) =
     (case pc of
        None \<Rightarrow> Node p ip pn ch pc st
      | Some c \<Rightarrow> Node p ip pn ch (Some (amend f c es)) st)"

definition node_in :: "'r realm \<Rightarrow> owner \<Rightarrow> edge list \<Rightarrow> 'r node option" where
  "node_in rl ow es =
     (case own_paramChild (object_of rl ow) of None \<Rightarrow> None | Some n \<Rightarrow> descend n es)"

definition amend_in :: "('r node \<Rightarrow> 'r node) \<Rightarrow> 'r realm \<Rightarrow> owner \<Rightarrow> edge list \<Rightarrow> 'r realm" where
  "amend_in f rl ow es =
     (case own_paramChild (object_of rl ow) of
        None \<Rightarrow> rl
      | Some n \<Rightarrow> AList.update ow ((object_of rl ow) \<lparr> own_paramChild := Some (amend f n es) \<rparr>) rl)"

text \<open>
  \<^verbatim>\<open>children[seg]\<close> of a dictionary that has no own property \<open>seg\<close>: the member of
  \<^verbatim>\<open>Object.prototype\<close> of that name, or a property that an insert has put on
  \<^verbatim>\<open>Object.prototype\<close>, or nothing.
\<close>

definition inherited :: "'r realm \<Rightarrow> string \<Rightarrow> cursor option" where
  "inherited rl seg =
     (if seg \<in> set object_prototype_names then Some (On (Member seg))
      else if seg = ''store'' \<and> own_store (object_of rl proto) \<noteq> None then Some (On Held)
      else if seg = ''paramChild'' \<and> own_paramChild (object_of rl proto) \<noteq> None
        then Some (Below proto [])
      else None)"

text \<open>
  \<^verbatim>\<open>node.children[seg]\<close>, \<^verbatim>\<open>node.paramChild\<close> and \<^verbatim>\<open>node.store\<close> at a cursor. A node
  has \<^verbatim>\<open>paramChild\<close> and \<^verbatim>\<open>store\<close> as own properties; any other object reads them
  through its prototype chain, which ends in \<^verbatim>\<open>Object.prototype\<close>.
\<close>

definition child_of :: "'r realm \<Rightarrow> owner \<Rightarrow> edge list \<Rightarrow> string \<Rightarrow> cursor option" where
  "child_of rl ow es seg =
     (case node_in rl ow es of
        None \<Rightarrow> None
      | Some n \<Rightarrow>
          (case map_of (children n) seg of
             Some c \<Rightarrow> Some (Below ow (es @ [Lit seg]))
           | None \<Rightarrow> inherited rl seg))"

fun paramChild_of :: "'r realm \<Rightarrow> cursor \<Rightarrow> cursor option" where
  "paramChild_of rl (On ow) =
     (if own_paramChild (object_of rl ow) \<noteq> None then Some (Below ow [])
      else if own_paramChild (object_of rl proto) \<noteq> None then Some (Below proto [])
      else None)"
| "paramChild_of rl (Below ow es) =
     (case node_in rl ow es of
        None \<Rightarrow> None
      | Some n \<Rightarrow> (case paramChild n of None \<Rightarrow> None | Some c \<Rightarrow> Some (Below ow (es @ [Par]))))"

fun store_of :: "'r realm \<Rightarrow> cursor \<Rightarrow> 'r option" where
  "store_of rl (On ow) =
     (case own_store (object_of rl ow) of
        Some d \<Rightarrow> Some d
      | None \<Rightarrow> own_store (object_of rl proto))"
| "store_of rl (Below ow es) =
     (case node_in rl ow es of None \<Rightarrow> None | Some n \<Rightarrow> store n)"

fun paramName_of :: "'r realm \<Rightarrow> cursor \<Rightarrow> string" where
  "paramName_of rl (On ow) = []"
| "paramName_of rl (Below ow es) =
     (case node_in rl ow es of None \<Rightarrow> [] | Some n \<Rightarrow> paramName n)"

text \<open>
  The assignments \<^verbatim>\<open>node.paramChild = new Node(part, true)\<close> and \<^verbatim>\<open>node.store = data\<close>
  at a cursor. A record that replaces the one held by \<^verbatim>\<open>Object.prototype.store\<close> is a
  new object, without the properties its predecessor was given.
\<close>

definition param_Node :: "string \<Rightarrow> 'r node" where
  "param_Node seg = Node seg True (slice1 seg) [] None None"

fun put_paramChild :: "'r realm \<Rightarrow> cursor \<Rightarrow> 'r node \<Rightarrow> 'r realm" where
  "put_paramChild rl (On ow) c =
     AList.update ow ((object_of rl ow) \<lparr> own_paramChild := Some c \<rparr>) rl"
| "put_paramChild rl (Below ow es) c =
     amend_in (\<lambda>n. Node (part n) (isParam n) (paramName n) (children n) (Some c) (store n)) rl ow es"

fun put_store :: "'r realm \<Rightarrow> cursor \<Rightarrow> 'r \<Rightarrow> 'r realm" where
  "put_store rl (On ow) data =
     (let rl' = AList.update ow ((object_of rl ow) \<lparr> own_store := Some data \<rparr>) rl
      in if ow = proto then AList.delete Held rl' else rl')"
| "put_store rl (Below ow es) data =
     amend_in (\<lambda>n. Node (part n) (isParam n) (paramName n) (children n) (paramChild n) (Some data))
       rl ow es"

definition put_child :: "'r realm \<Rightarrow> owner \<Rightarrow> edge list \<Rightarrow> string \<Rightarrow> 'r realm" where
  "put_child rl ow es seg =
     amend_in (\<lambda>n. Node (part n) (isParam n) (paramName n)
                     (AList.update seg (new_Node seg False) (children n)) (paramChild n) (store n))
       rl ow es"

text \<open>\<^verbatim>\<open>undefined[seg]\<close>: reading \<^verbatim>\<open>children[seg]\<close> of an object that has no \<^verbatim>\<open>children\<close>.\<close>

datatype js_error = Error (message: string)

definition no_children :: "string \<Rightarrow> js_error" where
  "no_children seg = Error (''Cannot read properties of undefined (reading '' @ [CHR 0x27] @ seg @ [CHR 0x27] @ '')'')"

subsection \<open>Insert\<close>

text \<open>
  The loop of \<^verbatim>\<open>Router.insert\<close> from the point where \<^verbatim>\<open>node\<close> is outside the
  router's own trie, one segment per step: a parametric segment takes the
  \<^verbatim>\<open>paramChild\<close>, creating it when the slot is falsy; a literal segment reads
  \<^verbatim>\<open>node.children[part]\<close>, which throws on an object without \<^verbatim>\<open>children\<close>; after the
  last segment \<^verbatim>\<open>node.store = data\<close>. What was assigned before a throw stays.
\<close>

fun realm_insert :: "'r realm \<Rightarrow> cursor \<Rightarrow> string list \<Rightarrow> 'r \<Rightarrow> js_error option \<times> 'r realm" where
  "realm_insert rl cur [] data = (None, put_store rl cur data)"
| "realm_insert rl cur (seg # segs) data =
     (if startsWith_colon seg then
        (case paramChild_of rl cur of
           Some cur' \<Rightarrow> realm_insert rl cur' segs data
         | None \<Rightarrow>
             realm_insert (put_paramChild rl cur (param_Node seg))
               (case cur of On ow \<Rightarrow> Below ow [] | Below ow es \<Rightarrow> Below ow (es @ [Par]))
               segs data)
      else
        (case cur of
           On ow \<Rightarrow> (Some (no_children seg), rl)
         | Below ow es \<Rightarrow>
             (case child_of rl ow es seg of
                Some cur' \<Rightarrow> realm_insert rl cur' segs data
              | None \<Rightarrow>
                  realm_insert (put_child rl ow es seg) (Below ow (es @ [Lit seg])) segs data)))"

text \<open>
  The same loop while \<^verbatim>\<open>node\<close> is a node of the router's own trie. The source mutates
  the trie in place; the model rebuilds the path it walked. A child is created only when
  the slot is falsy (\<^verbatim>\<open>if (!node.paramChild)\<close>, \<^verbatim>\<open>if (!node.children[part])\<close>); when the
  dictionary has no own child for the segment but inherits a value, the walk goes on in
  that object and the trie keeps what was created up to there.
\<close>

fun insert_parts ::
  "'r realm \<Rightarrow> 'r node \<Rightarrow> string list \<Rightarrow> 'r \<Rightarrow> js_error option \<times> 'r realm \<times> 'r node" where
  "insert_parts rl (Node p ip pn ch pc st) [] data = (None, rl, Node p ip pn ch pc (Some data))"
| "insert_parts rl (Node p ip pn ch pc st) (seg # segs) data =
     (if startsWith_colon seg then
        (case insert_parts rl (case pc of None \<Rightarrow> param_Node seg | Some c \<Rightarrow> c) segs data of
           (e, rl', c') \<Rightarrow> (e, rl', Node p ip pn ch (Some c') st))
      else
        (case map_of ch seg of
           Some c \<Rightarrow>
             (case insert_parts rl c segs data of
                (e, rl', c') \<Rightarrow> (e, rl', Node p ip pn (AList.update seg c' ch) pc st))
         | None \<Rightarrow>
             (case inherited rl seg of
                Some cur \<Rightarrow>
                  (case realm_insert rl cur segs data of
                     (e, rl') \<Rightarrow> (e, rl', Node p ip pn ch pc st))
              | None \<Rightarrow>
                  (case insert_parts rl (new_Node seg False) segs data of
                     (e, rl', c') \<Rightarrow> (e, rl', Node p ip pn (AList.update seg c' ch) pc st)))))"

subsection \<open>Lookup\<close>

text \<open>
  \<^verbatim>\<open>params[node.paramName] = part\<close> on the object \<^verbatim>\<open>params = {}\<close>: an own property
  is created or overwritten, except that assigning a string to \<^verbatim>\<open>__proto__\<close> calls the
  setter of \<^verbatim>\<open>Object.prototype\<close>, which ignores it.
\<close>

definition capture :: "string \<Rightarrow> string \<Rightarrow> (string \<times> string) list \<Rightarrow> (string \<times> string) list" where
  "capture name seg params = (if name = ''__proto__'' then params else AList.update name seg params)"

text \<open>
  The loop of \<^verbatim>\<open>Router.lookup\<close> outside the router's own trie: \<^verbatim>\<open>node.children[part]\<close>
  first, which throws on an object without \<^verbatim>\<open>children\<close>; the \<^verbatim>\<open>paramChild\<close> when that
  is falsy; \<^verbatim>\<open>return null\<close> with neither. The result is the stored record with
  \<^verbatim>\<open>params\<close>, or \<^verbatim>\<open>null\<close>.
\<close>

fun realm_lookup ::
  "'r realm \<Rightarrow> cursor \<Rightarrow> string list \<Rightarrow> (string \<times> string) list \<Rightarrow>
   js_error + ('r \<times> (string \<times> string) list) option" where
  "realm_lookup rl cur [] params =
     Inr (case store_of rl cur of None \<Rightarrow> None | Some d \<Rightarrow> Some (d, params))"
| "realm_lookup rl cur (seg # segs) params =
     (case cur of
        On ow \<Rightarrow> Inl (no_children seg)
      | Below ow es \<Rightarrow>
          (case child_of rl ow es seg of
             Some cur' \<Rightarrow> realm_lookup rl cur' segs params
           | None \<Rightarrow>
               (case paramChild_of rl cur of
                  Some cur' \<Rightarrow>
                    realm_lookup rl cur' segs (capture (paramName_of rl cur') seg params)
                | None \<Rightarrow> Inr None)))"

text \<open>
  The same loop in the router's own trie: the literal child first; without one, what the
  dictionary inherits for the segment; the parametric child only when
  \<^verbatim>\<open>node.children[part]\<close> is falsy; \<^verbatim>\<open>return null\<close> when there is nothing.
\<close>

fun lookup_parts ::
  "'r realm \<Rightarrow> 'r node \<Rightarrow> string list \<Rightarrow> (string \<times> string) list \<Rightarrow>
   js_error + ('r \<times> (string \<times> string) list) option" where
  "lookup_parts rl n [] params =
     Inr (case store n of None \<Rightarrow> None | Some d \<Rightarrow> Some (d, params))"
| "lookup_parts rl n (seg # segs) params =
     (case map_of (children n) seg of
        Some c \<Rightarrow> lookup_parts rl c segs params
      | None \<Rightarrow>
          (case inherited rl seg of
             Some cur \<Rightarrow> realm_lookup rl cur segs params
           | None \<Rightarrow>
               (case paramChild n of
                  Some c \<Rightarrow> lookup_parts rl c segs (capture (paramName c) seg params)
                | None \<Rightarrow> Inr None)))"

record 'r Router =
  root :: "'r node"

definition new_Router :: "'r Router" where
  "new_Router = \<lparr> root = new_Node [] False \<rparr>"

text \<open>
  \<^verbatim>\<open>insert(path, data)\<close> returns the error it throws, if any, with the state it leaves;
  \<^verbatim>\<open>lookup(path)\<close> throws or returns.
\<close>

definition insert ::
  "'r realm \<Rightarrow> 'r Router \<Rightarrow> string \<Rightarrow> 'r \<Rightarrow> js_error option \<times> 'r realm \<times> 'r Router" where
  "insert rl r path data =
     (case insert_parts rl (root r) (path_parts path) data of
        (e, rl', n) \<Rightarrow> (e, rl', r \<lparr> root := n \<rparr>))"

definition lookup ::
  "'r realm \<Rightarrow> 'r Router \<Rightarrow> string \<Rightarrow> js_error + ('r \<times> (string \<times> string) list) option" where
  "lookup rl r path = lookup_parts rl (root r) (path_parts path) []"

subsection \<open>Trie positions\<close>

text \<open>
  Auxiliary notions for stating the router's properties. \<open>node_at n segs\<close> is the node
  that \<^verbatim>\<open>insert\<close> reaches from \<open>n\<close> along \<open>segs\<close> when every node on the way
  already exists in the trie: a segment starting with a colon addresses the parametric
  child whatever its name, any other segment the literal child of that text. \<open>slot\<close> is
  what a segment contributes to the position, \<open>param_at\<close> the parameter name stored
  below a position, \<open>literal_keys_ok\<close> says that no literal child is keyed by a segment
  starting with a colon (true of every trie that \<^verbatim>\<open>insert\<close> builds), and \<open>insert_all\<close>
  is a sequence of calls of \<^verbatim>\<open>insert\<close> by a caller that goes on after a throw.
\<close>

fun node_at :: "'r node \<Rightarrow> string list \<Rightarrow> 'r node option" where
  "node_at n [] = Some n"
| "node_at n (seg # segs) =
     (if startsWith_colon seg then
        (case paramChild n of None \<Rightarrow> None | Some c \<Rightarrow> node_at c segs)
      else
        (case map_of (children n) seg of None \<Rightarrow> None | Some c \<Rightarrow> node_at c segs))"

definition param_at :: "'r node \<Rightarrow> string list \<Rightarrow> string option" where
  "param_at n pos =
     (case node_at n pos of
        None \<Rightarrow> None
      | Some m \<Rightarrow> (case paramChild m of None \<Rightarrow> None | Some c \<Rightarrow> Some (paramName c)))"

fun literal_keys_ok :: "'r node \<Rightarrow> bool" where
  "literal_keys_ok (Node p ip pn ch pc st) =
     (list_all (\<lambda>kc. \<not> startsWith_colon (fst kc) \<and> literal_keys_ok (snd kc)) ch \<and>
      (case pc of None \<Rightarrow> True | Some c \<Rightarrow> literal_keys_ok c))"


fun insert_all :: "'r realm \<times> 'r Router \<Rightarrow> (string \<times> 'r) list \<Rightarrow> 'r realm \<times> 'r Router" where
  "insert_all s [] = s"
| "insert_all s ((path, data) # rest) = insert_all (snd (insert (fst s) (snd s) path data)) rest"

text \<open>
  The lookup as the specification words it, on the trie alone: the literal child when
  there is one for the segment, else the parametric child with the segment captured under
  its name, else no match.
\<close>

fun spec_lookup ::
  "'r node \<Rightarrow> string list \<Rightarrow> (string \<times> string) list \<Rightarrow> ('r \<times> (string \<times> string) list) option" where
  "spec_lookup n [] params = (case store n of None \<Rightarrow> None | Some d \<Rightarrow> Some (d, params))"
| "spec_lookup n (seg # segs) params =
     (case map_of (children n) seg of
        Some c \<Rightarrow> spec_lookup c segs params
      | None \<Rightarrow>
          (case paramChild n of
             Some c \<Rightarrow> spec_lookup c segs (AList.update (paramName c) seg params)
           | None \<Rightarrow> None))"

text \<open>No parametric node of the trie is named \<^verbatim>\<open>__proto__\<close>.\<close>

fun plain_names :: "'r node \<Rightarrow> bool" where
  "plain_names (Node p ip pn ch pc st) =
     (pn \<noteq> ''__proto__'' \<and> list_all (\<lambda>kc. plain_names (snd kc)) ch \<and>
      (case pc of None \<Rightarrow> True | Some c \<Rightarrow> plain_names c))"

section \<open>JavaScript values\<close>

text \<open>
  The values that flow through the engine (payloads, bodies, schemas, decorator values):
  the primitives, plain objects as their own enumerable properties in insertion order,
  and arrays. Numbers are the integers. An object has the prototype
  \<^verbatim>\<open>Object.prototype\<close>, an array \<^verbatim>\<open>Array.prototype\<close>; the members they inherit are
  functions, not values of this type, and are known here by their names.
\<close>

datatype jsval =
    Undefined
  | Null
  | Bool bool
  | Num int
  | Str string
  | Obj "(string \<times> jsval) list"
  | Arr "jsval list"

text \<open>Truthiness, as \<^verbatim>\<open>if (x)\<close>, \<^verbatim>\<open>!x\<close> and \<^verbatim>\<open>x || y\<close> test it.\<close>

fun truthy :: "jsval \<Rightarrow> bool" where
  "truthy Undefined = False"
| "truthy Null = False"
| "truthy (Bool b) = b"
| "truthy (Num n) = (n \<noteq> 0)"
| "truthy (Str s) = (s \<noteq> [])"
| "truthy (Obj kvs) = True"
| "truthy (Arr xs) = True"

fun typeof :: "jsval \<Rightarrow> string" where
  "typeof Undefined = ''undefined''"
| "typeof Null = ''object''"
| "typeof (Bool b) = ''boolean''"
| "typeof (Num n) = ''number''"
| "typeof (Str s) = ''string''"
| "typeof (Obj kvs) = ''object''"
| "typeof (Arr xs) = ''object''"

text \<open>Decimal digits of a natural number, and \<^verbatim>\<open>String(x)\<close>.\<close>

fun show_nat :: "nat \<Rightarrow> string" where
  "show_nat n =
     (if n < 10 then [''0123456789'' ! n]
      else show_nat (n div 10) @ [''0123456789'' ! (n mod 10)])"

declare show_nat.simps [simp del]

definition show_int :: "int \<Rightarrow> string" where
  "show_int i = (if i < 0 then CHR ''-'' # show_nat (nat (- i)) else show_nat (nat i))"

fun join_with :: "string \<Rightarrow> string list \<Rightarrow> string" where
  "join_with sep [] = []"
| "join_with sep [x] = x"
| "join_with sep (x # y # ys) = x @ sep @ join_with sep (y # ys)"

fun js_String :: "jsval \<Rightarrow> string" where
  "js_String Undefined = ''undefined''"
| "js_String Null = ''null''"
| "js_String (Bool b) = (if b then ''true'' else ''false'')"
| "js_String (Num n) = show_int n"
| "js_String (Str s) = s"
| "js_String (Obj kvs) = ''[object Object]''"
| "js_String (Arr xs) =
     join_with '','' (map (\<lambda>x. if x = Undefined \<or> x = Null then [] else js_String x) xs)"

text \<open>
  The own property \<open>k\<close> of a value: a property of an object, an element or the length
  of an array or a string; \<^verbatim>\<open>undefined\<close> when there is none. This is \<^verbatim>\<open>x[k]\<close> for
  every \<open>k\<close> that the prototype chain of \<open>x\<close> does not provide.
\<close>

fun get_prop :: "jsval \<Rightarrow> string \<Rightarrow> jsval" where
  "get_prop (Obj kvs) k = (case map_of kvs k of None \<Rightarrow> Undefined | Some v \<Rightarrow> v)"
| "get_prop (Arr xs) k =
     (if k = ''length'' then Num (int (length xs))
      else (case filter (\<lambda>i. show_nat i = k) [0..<length xs] of
              [] \<Rightarrow> Undefined
            | i # _ \<Rightarrow> xs ! i))"
| "get_prop (Str s) k =
     (if k = ''length'' then Num (int (length s))
      else (case filter (\<lambda>i. show_nat i = k) [0..<length s] of
              [] \<Rightarrow> Undefined
            | i # _ \<Rightarrow> Str [s ! i]))"
| "get_prop v k = Undefined"

text \<open>
  The names of the own properties of \<^verbatim>\<open>Array.prototype\<close>; \<open>inherits v k\<close> says that
  the object or array \<open>v\<close> finds a member \<open>k\<close> on its prototype chain, and \<open>owns v k\<close>
  that it has \<open>k\<close> as an own property.
\<close>

definition array_prototype_names :: "string list" where
  "array_prototype_names =
     [''length'', ''constructor'', ''at'', ''concat'', ''copyWithin'', ''fill'', ''find'',
      ''findIndex'', ''findLast'', ''findLastIndex'', ''lastIndexOf'', ''pop'', ''push'',
      ''reverse'', ''shift'', ''unshift'', ''slice'', ''sort'', ''splice'', ''includes'',
      ''indexOf'', ''join'', ''keys'', ''entries'', ''values'', ''forEach'', ''filter'',
      ''flat'', ''flatMap'', ''map'', ''every'', ''some'', ''reduce'', ''reduceRight'',
      ''toReversed'', ''toSorted'', ''toSpliced'', ''with'', ''toLocaleString'', ''toString'']"

fun inherits :: "jsval \<Rightarrow> string \<Rightarrow> bool" where
  "inherits (Obj kvs) k = (k \<in> set object_prototype_names)"
| "inherits (Arr xs) k = (k \<in> set array_prototype_names \<or> k \<in> set object_prototype_names)"
| "inherits v k = False"

fun owns :: "jsval \<Rightarrow> string \<Rightarrow> bool" where
  "owns (Obj kvs) k = (map_of kvs k \<noteq> None)"
| "owns (Arr xs) k = (k = ''length'' \<or> filter (\<lambda>i. show_nat i = k) [0..<length xs] \<noteq> [])"
| "owns v k = False"

text \<open>
  \<^verbatim>\<open>data[key] === undefined\<close> for an object or an array: the own property decides
  when there is one, else whether a member of that name is inherited.
\<close>

definition member_undefined :: "jsval \<Rightarrow> string \<Rightarrow> bool" where
  "member_undefined data k =
     (if owns data k then get_prop data k = Undefined else \<not> inherits data k)"

text \<open>
  What \<^verbatim>\<open>for (const key of x)\<close> goes through: the elements of an array, the characters
  of a string; any other value is not iterable and the loop throws a \<^verbatim>\<open>TypeError\<close>,
  whose message names the expression \<open>x\<close> by its source text.
\<close>

fun iterate :: "string \<Rightarrow> jsval \<Rightarrow> js_error + jsval list" where
  "iterate source (Arr xs) = Inr xs"
| "iterate source (Str s) = Inr (map (\<lambda>c. Str [c]) s)"
| "iterate source v = Inl (Error (source @ '' is not iterable''))"

text \<open>\<^verbatim>\<open>s.includes(t)\<close> and \<^verbatim>\<open>s.toLowerCase()\<close> (on ASCII letters).\<close>

fun js_includes :: "string \<Rightarrow> string \<Rightarrow> bool" where
  "js_includes [] t = (t = [])"
| "js_includes (c # cs) t = (take (length t) (c # cs) = t \<or> js_includes cs t)"

definition toLowerCase :: "string \<Rightarrow> string" where
  "toLowerCase s =
     map (\<lambda>c. case map_of (zip ''ABCDEFGHIJKLMNOPQRSTUVWXYZ'' ''abcdefghijklmnopqrstuvwxyz'') c of
                None \<Rightarrow> c
              | Some l \<Rightarrow> l) s"

section \<open>The response transport and the request context\<close>

text \<open>
  The part of Node's \<^verbatim>\<open>ServerResponse\<close> that the engine touches: the status code,
  the headers (names are case-insensitive, kept in lower case), whether the head has
  been flushed, whether \<^verbatim>\<open>end\<close> has been called, and the chunks handed to \<^verbatim>\<open>end\<close>.
  The calls are taken not to throw, and \<^verbatim>\<open>end\<close> on a transport that has ended writes
  nothing.
\<close>

record response =
  statusCode :: int
  headers :: "(string \<times> jsval) list"
  headersSent :: bool
  writableEnded :: bool
  written :: "string list"

definition new_response :: response where
  "new_response =
     \<lparr> statusCode = 200, headers = [], headersSent = False, writableEnded = False, written = [] \<rparr>"

definition res_getHeader :: "response \<Rightarrow> string \<Rightarrow> jsval" where
  "res_getHeader r name =
     (case map_of (headers r) (toLowerCase name) of None \<Rightarrow> Undefined | Some v \<Rightarrow> v)"

definition res_setHeader :: "response \<Rightarrow> string \<Rightarrow> jsval \<Rightarrow> response" where
  "res_setHeader r name v = r \<lparr> headers := AList.update (toLowerCase name) v (headers r) \<rparr>"

definition res_writeHead :: "response \<Rightarrow> int \<Rightarrow> response" where
  "res_writeHead r code = r \<lparr> statusCode := code, headersSent := True \<rparr>"

definition res_end :: "response \<Rightarrow> string \<Rightarrow> response" where
  "res_end r chunk =
     (if writableEnded r then r
      else r \<lparr> headersSent := True, writableEnded := True, written := written r @ [chunk] \<rparr>)"

text \<open>
  \<^verbatim>\<open>class Context\<close>. \<open>decorated\<close> holds the fields that the constructor's
  \<^verbatim>\<open>Object.assign(this, scope.decorators)\<close> adds (a decorator is taken not to bear the
  name of one of the other fields); \<open>immediates\<close> counts the runs of the \<^verbatim>\<open>onResponse\<close>
  hooks that \<^verbatim>\<open>send\<close> has scheduled with \<^verbatim>\<open>setImmediate\<close>.
\<close>

record Context =
  http_method :: string
  path :: string
  query :: jsval
  params :: jsval
  body :: jsval
  responded :: bool
  payload :: jsval
  error :: "js_error option"
  res :: response
  decorated :: "(string \<times> jsval) list"
  immediates :: nat

text \<open>
  A hook, middleware or route handler: a function of the context that may change it and
  may throw. It stands for the whole awaited call, so its result is the context as the
  call leaves it, together with the error thrown if there is one.
\<close>

type_synonym handler = "Context \<Rightarrow> js_error option \<times> Context"

text \<open>Reading a field \<^verbatim>\<open>ctx.name\<close> that a decorator may have provided.\<close>

definition field :: "Context \<Rightarrow> string \<Rightarrow> jsval" where
  "field c name = (case map_of (decorated c) name of None \<Rightarrow> Undefined | Some v \<Rightarrow> v)"

text \<open>\<^verbatim>\<open>status(code)\<close> and \<^verbatim>\<open>setHeader(name, value)\<close> of the context.\<close>

definition status :: "Context \<Rightarrow> int \<Rightarrow> Context" where
  "status c code = c \<lparr> res := (res c) \<lparr> statusCode := code \<rparr> \<rparr>"

definition setHeader :: "Context \<Rightarrow> string \<Rightarrow> jsval \<Rightarrow> Context" where
  "setHeader c name v = c \<lparr> res := res_setHeader (res c) name v \<rparr>"

section \<open>Validators\<close>

text \<open>
  A compiled validator takes the data and returns an error value, where a falsy value
  (\<^verbatim>\<open>null\<close>) means that the data is accepted; like any function it may throw.
\<close>

type_synonym validator = "jsval \<Rightarrow> js_error + jsval"

text \<open>
  The loop of \<^verbatim>\<open>defaultValidator\<close> over \<^verbatim>\<open>schema.required\<close>: the first key for
  which \<^verbatim>\<open>!data || data[key] === undefined\<close> ends it with the error object.
\<close>

fun check_required :: "jsval list \<Rightarrow> jsval \<Rightarrow> jsval" where
  "check_required [] data = Null"
| "check_required (key # keys) data =
     (if \<not> truthy data \<or> member_undefined data (js_String key)
      then Obj [(''message'', Str (''Missing required property: '' @ js_String key))]
      else check_required keys data)"

definition defaultValidator :: "jsval \<Rightarrow> validator" where
  "defaultValidator schema data =
     (if \<not> truthy schema then Inr Null
      else if truthy (get_prop schema ''required'') \<and> typeof data = ''object'' then
        (case iterate ''schema.required'' (get_prop schema ''required'') of
           Inl e \<Rightarrow> Inl e
         | Inr keys \<Rightarrow> Inr (check_required keys data))
      else Inr Null)"

text \<open>The \<^verbatim>\<open>validators\<close> object of a route record: each field is present or not.\<close>

record validator_set =
  v_body :: "validator option"
  v_querystring :: "validator option"
  v_params :: "validator option"

section \<open>Scopes\<close>

text \<open>
  \<^verbatim>\<open>class Linear\<close>. Scopes are objects that refer to one another, so they live in a
  store (\<open>scopes\<close>, a scope's reference is its index) next to the state that all scopes
  share by reference: the routers and the root configuration, and the objects that the
  routers' dictionaries inherit from (\<open>realm\<close>). \<open>decorators\<close> holds the own
  properties of the scope's \<^verbatim>\<open>decorators\<close> object; that object's prototype is the
  \<^verbatim>\<open>decorators\<close> object of the parent scope (\<^verbatim>\<open>Object.create(parent.decorators)\<close>).
\<close>

record hook_lists =
  onRequest :: "handler list"
  preValidation :: "handler list"
  preHandler :: "handler list"
  onSend :: "handler list"
  onResponse :: "handler list"
  onError :: "handler list"
  onTimeout :: "handler list"

record Linear =
  parent :: "nat option"
  prefix :: string
  decorators :: "(string \<times> jsval) list"
  validatorCompiler :: "jsval \<Rightarrow> validator"
  middlewares :: "handler list"
  hooks :: hook_lists

text \<open>The record that \<^verbatim>\<open>addRoute\<close> stores in the router.\<close>

record route =
  handlers :: "handler list"
  schema :: jsval
  validators :: validator_set
  scope :: nat

record config =
  timeout :: nat
  bodyLimit :: nat
  parseBody :: bool

record config_options =
  opt_timeout :: "nat option"
  opt_bodyLimit :: "nat option"
  opt_parseBody :: "bool option"

record app =
  scopes :: "Linear list"
  routers :: "(string \<times> route Router) list"
  rootConfig :: config
  realm :: "route realm"

text \<open>The constructor without a parent: the root scope, at index 0.\<close>

definition new_root :: "config_options \<Rightarrow> app" where
  "new_root options =
     \<lparr> scopes =
         [\<lparr> parent = None, prefix = [], decorators = [],
            validatorCompiler = defaultValidator,
            middlewares = [],
            hooks = \<lparr> onRequest = [], preValidation = [], preHandler = [], onSend = [],
                      onResponse = [], onError = [], onTimeout = [] \<rparr> \<rparr>],
       routers =
         [(''GET'', new_Router), (''POST'', new_Router), (''PUT'', new_Router),
          (''DELETE'', new_Router), (''PATCH'', new_Router)],
       rootConfig =
         \<lparr> timeout = (case opt_timeout options of None \<Rightarrow> 5000 | Some t \<Rightarrow> t),
           bodyLimit = (case opt_bodyLimit options of None \<Rightarrow> 1024 * 1024 | Some b \<Rightarrow> b),
           parseBody = (case opt_parseBody options of None \<Rightarrow> True | Some p \<Rightarrow> p) \<rparr>,
       realm = new_realm \<rparr>"

text \<open>
  The constructor with a parent \<open>pid\<close>; \<open>opt_prefix\<close> is \<^verbatim>\<open>options.prefix\<close>. The new
  scope gets the next index. Its \<^verbatim>\<open>decorators\<close> object has no own property, and the
  middleware list and the seven hook lists are copies of the parent's.
\<close>

definition new_child :: "app \<Rightarrow> nat \<Rightarrow> string option \<Rightarrow> app \<times> nat" where
  "new_child a pid opt_prefix =
     (let p = scopes a ! pid;
          child =
            \<lparr> parent = Some pid,
              prefix = prefix p @ (case opt_prefix of None \<Rightarrow> [] | Some s \<Rightarrow> s),
              decorators = [],
              validatorCompiler = validatorCompiler p,
              middlewares = middlewares p,
              hooks = \<lparr> onRequest = onRequest (hooks p),
                        preValidation = preValidation (hooks p),
                        preHandler = preHandler (hooks p),
                        onSend = onSend (hooks p),
                        onResponse = onResponse (hooks p),
                        onError = onError (hooks p),
                        onTimeout = onTimeout (hooks p) \<rparr> \<rparr>
      in (a \<lparr> scopes := scopes a @ [child] \<rparr>, length (scopes a)))"

definition decorate :: "app \<Rightarrow> nat \<Rightarrow> string \<Rightarrow> jsval \<Rightarrow> app" where
  "decorate a sid name v =
     (let s = scopes a ! sid
      in a \<lparr> scopes := (scopes a) [sid := s \<lparr> decorators := AList.update name v (decorators s) \<rparr>] \<rparr>)"

definition use :: "app \<Rightarrow> nat \<Rightarrow> handler \<Rightarrow> app" where
  "use a sid fn =
     (let s = scopes a ! sid
      in a \<lparr> scopes := (scopes a) [sid := s \<lparr> middlewares := middlewares s @ [fn] \<rparr>] \<rparr>)"

text \<open>
  \<^verbatim>\<open>if (this.hooks[name]) this.hooks[name].push(fn)\<close>: a name that is none of the seven
  and that \<^verbatim>\<open>hooks\<close>, an object literal, does not inherit leaves every list as it is.
  For an inherited name \<^verbatim>\<open>this.hooks[name]\<close> is truthy and has no \<^verbatim>\<open>push\<close>, so
  the call throws.
\<close>

definition push_hook :: "hook_lists \<Rightarrow> string \<Rightarrow> handler \<Rightarrow> hook_lists" where
  "push_hook h name fn =
     (if name = ''onRequest'' then h \<lparr> onRequest := onRequest h @ [fn] \<rparr>
      else if name = ''preValidation'' then h \<lparr> preValidation := preValidation h @ [fn] \<rparr>
      else if name = ''preHandler'' then h \<lparr> preHandler := preHandler h @ [fn] \<rparr>
      else if name = ''onSend'' then h \<lparr> onSend := onSend h @ [fn] \<rparr>
      else if name = ''onResponse'' then h \<lparr> onResponse := onResponse h @ [fn] \<rparr>
      else if name = ''onError'' then h \<lparr> onError := onError h @ [fn] \<rparr>
      else if name = ''onTimeout'' then h \<lparr> onTimeout := onTimeout h @ [fn] \<rparr>
      else h)"

definition addHook :: "app \<Rightarrow> nat \<Rightarrow> string \<Rightarrow> handler \<Rightarrow> js_error option \<times> app" where
  "addHook a sid name fn =
     (if name \<in> set object_prototype_names
      then (Some (Error ''this.hooks[name].push is not a function''), a)
      else
        (let s = scopes a ! sid
         in (None, a \<lparr> scopes := (scopes a) [sid := s \<lparr> hooks := push_hook (hooks s) name fn \<rparr>] \<rparr>)))"

definition setValidatorCompiler :: "app \<Rightarrow> nat \<Rightarrow> (jsval \<Rightarrow> validator) \<Rightarrow> app" where
  "setValidatorCompiler a sid compiler =
     (let s = scopes a ! sid
      in a \<lparr> scopes := (scopes a) [sid := s \<lparr> validatorCompiler := compiler \<rparr>] \<rparr>)"

text \<open>
  \<^verbatim>\<open>register(plugin, options)\<close>: \<open>skip\<close> is the plugin's skip-override tag. The result is
  the new state and the scope that the plugin is called with: the current scope for a
  tagged plugin, a new child scope otherwise. What the plugin then does is further calls
  on that scope.
\<close>

definition register :: "app \<Rightarrow> nat \<Rightarrow> bool \<Rightarrow> string option \<Rightarrow> app \<times> nat" where
  "register a sid skip opt_prefix = (if skip then (a, sid) else new_child a sid opt_prefix)"

text \<open>
  \<^verbatim>\<open>addRoute(method, path, handlers, schema)\<close>. The validators are compiled here, one
  per schema field that is present, and the record is inserted into the router of the
  verb. \<^verbatim>\<open>this.routers[method]\<close> is undefined for a verb without a router, and an
  inherited member without \<^verbatim>\<open>insert\<close> for a verb that names one: both make the call
  throw, as does an insert that throws.
\<close>

definition compile_validators :: "(jsval \<Rightarrow> validator) \<Rightarrow> jsval \<Rightarrow> validator_set" where
  "compile_validators compiler sch =
     (if truthy sch then
        \<lparr> v_body = (if truthy (get_prop sch ''body'')
                     then Some (compiler (get_prop sch ''body'')) else None),
          v_querystring = (if truthy (get_prop sch ''querystring'')
                            then Some (compiler (get_prop sch ''querystring'')) else None),
          v_params = (if truthy (get_prop sch ''params'')
                       then Some (compiler (get_prop sch ''params'')) else None) \<rparr>
      else \<lparr> v_body = None, v_querystring = None, v_params = None \<rparr>)"

definition route_record :: "app \<Rightarrow> nat \<Rightarrow> handler list \<Rightarrow> jsval \<Rightarrow> route" where
  "route_record a sid hs sch =
     \<lparr> handlers = hs, schema = sch,
       validators = compile_validators (validatorCompiler (scopes a ! sid)) sch,
       scope = sid \<rparr>"

definition addRoute ::
  "app \<Rightarrow> nat \<Rightarrow> string \<Rightarrow> string \<Rightarrow> handler list \<Rightarrow> jsval \<Rightarrow> js_error option \<times> app" where
  "addRoute a sid verb route_path hs sch =
     (case map_of (routers a) verb of
        None \<Rightarrow>
          (Some (Error (if verb \<in> set object_prototype_names
                        then ''this.routers[method].insert is not a function''
                        else ''Cannot read properties of undefined (reading 'insert')'')), a)
      | Some r \<Rightarrow>
          (case insert (realm a) r (prefix (scopes a ! sid) @ route_path)
                  (route_record a sid hs sch) of
             (e, rl, r') \<Rightarrow>
               (e, a \<lparr> routers := AList.update verb r' (routers a), realm := rl \<rparr>)))"

text \<open>
  Reading \<^verbatim>\<open>scope.decorators[name]\<close>: the own property, else the property of the
  prototype, and so on up the chain of parents. The chain of a scope is at most as long
  as the store, which bounds the walk.
\<close>

fun proto_get :: "nat \<Rightarrow> Linear list \<Rightarrow> nat \<Rightarrow> string \<Rightarrow> jsval" where
  "proto_get 0 ss sid name = Undefined"
| "proto_get (Suc fuel) ss sid name =
     (case map_of (decorators (ss ! sid)) name of
        Some v \<Rightarrow> v
      | None \<Rightarrow>
          (case parent (ss ! sid) of
             None \<Rightarrow> Undefined
           | Some p \<Rightarrow> proto_get fuel ss p name))"

definition decorators_get :: "app \<Rightarrow> nat \<Rightarrow> string \<Rightarrow> jsval" where
  "decorators_get a sid name = proto_get (length (scopes a)) (scopes a) sid name"

section \<open>Running handlers and sending the response\<close>

text \<open>
  Library functions that the engine calls and does not define: \<^verbatim>\<open>JSON.stringify\<close>,
  \<^verbatim>\<open>JSON.parse\<close> and \<^verbatim>\<open>querystring.parse\<close>. They are parameters of the model.
\<close>

record builtins =
  JSON_stringify :: "jsval \<Rightarrow> string"
  JSON_parse :: "string \<Rightarrow> js_error + jsval"
  parseQuery :: "string \<Rightarrow> jsval"

text \<open>
  \<^verbatim>\<open>run(ctx, handlers)\<close>: the handlers in order, stopping before the first one that
  finds the context responded; an error thrown by a handler ends the run.
\<close>

fun run :: "Context \<Rightarrow> handler list \<Rightarrow> js_error option \<times> Context" where
  "run c [] = (None, c)"
| "run c (h # hs) =
     (if responded c then (None, c)
      else (case h c of
              (Some e, c') \<Rightarrow> (Some e, c')
            | (None, c') \<Rightarrow> run c' hs))"

text \<open>
  \<^verbatim>\<open>ctx.send\<close> as \<^verbatim>\<open>createContext\<close> defines it, for the scope \<open>inst\<close> that created the
  context. The guard comes first. Then the payload is stored, the \<^verbatim>\<open>onSend\<close> hooks
  run, the body is serialized, the head is written unless it has been flushed already,
  the body is written, the context is marked responded and a run of the \<^verbatim>\<open>onResponse\<close>
  hooks is scheduled. An error thrown on the way is caught: the transport is ended
  without a body unless the head has been flushed.
\<close>

definition send :: "builtins \<Rightarrow> Linear \<Rightarrow> Context \<Rightarrow> jsval \<Rightarrow> Context" where
  "send B inst c data =
     (if responded c \<or> writableEnded (res c) then c
      else
        (case run (c \<lparr> payload := data \<rparr>) (onSend (hooks inst)) of
           (Some e, c') \<Rightarrow>
             (if \<not> headersSent (res c') then c' \<lparr> res := res_end (res c') [] \<rparr> else c')
         | (None, c') \<Rightarrow>
             (let isObj = (typeof (payload c') = ''object'' \<and> payload c' \<noteq> Null);
                  body_text =
                    (if isObj then JSON_stringify B (payload c')
                     else js_String (if truthy (payload c') then payload c' else Str []));
                  r = res c';
                  r1 =
                    (if \<not> headersSent r then
                       (let ra = (if isObj \<and> \<not> truthy (res_getHeader r ''Content-Type'')
                                  then res_setHeader r ''Content-Type'' (Str ''application/json'')
                                  else r);
                            rb = (if \<not> truthy (res_getHeader ra ''Content-Length'')
                                  then res_setHeader ra ''Content-Length''
                                         (Num (int (length body_text)))
                                  else ra)
                        in res_writeHead rb (if statusCode rb \<noteq> 0 then statusCode rb else 200))
                     else r)
              in c' \<lparr> res := res_end r1 body_text, responded := True,
                       immediates := immediates c' + 1 \<rparr>)))"

text \<open>
  The callback that \<^verbatim>\<open>send\<close> hands to \<^verbatim>\<open>setImmediate\<close>, run later by the event
  loop: \<^verbatim>\<open>instance.run(this, instance.hooks.onResponse)\<close>, where what a hook throws
  is only logged.
\<close>

definition response_phase :: "Linear \<Rightarrow> Context \<Rightarrow> Context" where
  "response_phase inst c = snd (run c (onResponse (hooks inst)))"

definition json :: "builtins \<Rightarrow> Linear \<Rightarrow> Context \<Rightarrow> jsval \<Rightarrow> Context" where
  "json B inst c data = send B inst (setHeader c ''Content-Type'' (Str ''application/json'')) data"

definition redirect :: "builtins \<Rightarrow> Linear \<Rightarrow> Context \<Rightarrow> string \<Rightarrow> int \<Rightarrow> Context" where
  "redirect B inst c url code = send B inst (setHeader (status c code) ''Location'' (Str url)) Null"

section \<open>Requests\<close>

text \<open>
  An incoming request: the verb, the path and the query entries of its URL, the
  \<^verbatim>\<open>content-type\<close> header, and what its body stream emits before it ends (chunks of
  data, or an error).
\<close>

datatype req_event = Data string | Failure js_error

record request =
  req_method :: string
  pathname :: string
  searchParams :: "(string \<times> string) list"
  content_type :: "string option"
  events :: "req_event list"

text \<open>
  The constructor of \<^verbatim>\<open>Context\<close>, called by \<^verbatim>\<open>createContext\<close> with the scope as
  \<open>sc\<close>. \<^verbatim>\<open>Object.assign(this, scope.decorators)\<close> copies the own enumerable properties
  of its source, which are the entries of \<open>decorators sc\<close>.
\<close>

definition createContext :: "Linear \<Rightarrow> request \<Rightarrow> response \<Rightarrow> Context" where
  "createContext sc req rs =
     \<lparr> http_method = req_method req,
       path = pathname req,
       query = Obj (fold (\<lambda>kv ps. AList.update (fst kv) (Str (snd kv)) ps) (searchParams req) []),
       params = Obj [],
       body = Null,
       responded = False,
       payload = Null,
       error = None,
       res = rs,
       decorated = decorators sc,
       immediates = 0 \<rparr>"

text \<open>
  \<^verbatim>\<open>_parseBody\<close>: nothing for \<^verbatim>\<open>GET\<close> and \<^verbatim>\<open>HEAD\<close>; otherwise the chunks are
  added up until the stream ends, the promise is rejected when the count of bytes passes
  the limit or the stream fails, and the text is decoded by its content type.
\<close>

fun read_body :: "nat \<Rightarrow> req_event list \<Rightarrow> string \<Rightarrow> nat \<Rightarrow> js_error + string" where
  "read_body limit [] acc received = Inr acc"
| "read_body limit (Data chunk # evs) acc received =
     (if received + length chunk > limit then Inl (Error ''Payload Too Large'')
      else read_body limit evs (acc @ chunk) (received + length chunk))"
| "read_body limit (Failure e # evs) acc received = Inl e"

definition parse_body :: "builtins \<Rightarrow> config \<Rightarrow> request \<Rightarrow> js_error + jsval" where
  "parse_body B cfg req =
     (if req_method req = ''GET'' \<or> req_method req = ''HEAD'' then Inr Null
      else
        (case read_body (bodyLimit cfg) (events req) [] 0 of
           Inl e \<Rightarrow> Inl e
         | Inr text \<Rightarrow>
             (if text = [] then Inr Null
              else
                (let ty = toLowerCase (case content_type req of None \<Rightarrow> [] | Some t \<Rightarrow> t)
                 in if js_includes ty ''application/json'' then
                      (case JSON_parse B text of
                         Inl e \<Rightarrow> Inl (Error ''Invalid Body'')
                       | Inr v \<Rightarrow> Inr v)
                    else if js_includes ty ''application/x-www-form-urlencoded'' then
                      Inr (parseQuery B text)
                    else Inr (Str text)))))"

section \<open>The lifecycle of a request\<close>

text \<open>
  The body of the \<^verbatim>\<open>try\<close> block in \<^verbatim>\<open>listen\<close> goes on to the next step, leaves by
  \<^verbatim>\<open>return\<close>, or throws; each carries the context as it then is.
\<close>

datatype outcome = Continue Context | Return Context | Throw js_error Context

fun and_then :: "outcome \<Rightarrow> (Context \<Rightarrow> outcome) \<Rightarrow> outcome" where
  "and_then (Continue c) f = f c"
| "and_then (Return c) f = Return c"
| "and_then (Throw e c) f = Throw e c"

text \<open>\<^verbatim>\<open>await scope.run(ctx, hs); if (ctx.responded) return;\<close>\<close>

definition run_phase :: "Context \<Rightarrow> handler list \<Rightarrow> outcome" where
  "run_phase c hs =
     (case run c hs of
        (Some e, c') \<Rightarrow> Throw e c'
      | (None, c') \<Rightarrow> (if responded c' then Return c' else Continue c'))"

definition body_phase :: "builtins \<Rightarrow> config \<Rightarrow> request \<Rightarrow> Context \<Rightarrow> outcome" where
  "body_phase B cfg req c =
     (if parseBody cfg \<and> body c = Null then
        (case parse_body B cfg req of
           Inl e \<Rightarrow> Throw e c
         | Inr b \<Rightarrow> Continue (c \<lparr> body := b \<rparr>))
      else Continue c)"

text \<open>
  The validators of the route in the order of the source: \<^verbatim>\<open>body\<close>, then
  \<^verbatim>\<open>querystring\<close> and \<^verbatim>\<open>params\<close> each only while \<^verbatim>\<open>err\<close> is still falsy.
\<close>

definition run_validators :: "validator_set \<Rightarrow> Context \<Rightarrow> js_error + jsval" where
  "run_validators v c =
     (case (case v_body v of None \<Rightarrow> Inr Null | Some f \<Rightarrow> f (body c)) of
        Inl e \<Rightarrow> Inl e
      | Inr err1 \<Rightarrow>
          (case (if \<not> truthy err1
                 then (case v_querystring v of None \<Rightarrow> Inr err1 | Some f \<Rightarrow> f (query c))
                 else Inr err1) of
             Inl e \<Rightarrow> Inl e
           | Inr err2 \<Rightarrow>
               (if \<not> truthy err2
                then (case v_params v of None \<Rightarrow> Inr err2 | Some f \<Rightarrow> f (params c))
                else Inr err2)))"

text \<open>\<^verbatim>\<open>ctx.status(400).send({ error: 'Validation Failed', details: err })\<close>\<close>

definition validation_failed :: "builtins \<Rightarrow> Linear \<Rightarrow> Context \<Rightarrow> jsval \<Rightarrow> Context" where
  "validation_failed B sc c err =
     send B sc (status c 400) (Obj [(''error'', Str ''Validation Failed''), (''details'', err)])"

definition validation_phase :: "builtins \<Rightarrow> Linear \<Rightarrow> route \<Rightarrow> Context \<Rightarrow> outcome" where
  "validation_phase B sc m c =
     (case run_validators (validators m) c of
        Inl e \<Rightarrow> Throw e c
      | Inr err \<Rightarrow>
          (if truthy err then Return (validation_failed B sc c err) else Continue c))"


definition handler_phase :: "route \<Rightarrow> Context \<Rightarrow> outcome" where
  "handler_phase m c =
     (case run c (handlers m) of
        (Some e, c') \<Rightarrow> Throw e c'
      | (None, c') \<Rightarrow> Return c')"

definition route_phase :: "builtins \<Rightarrow> Linear \<Rightarrow> route \<Rightarrow> Context \<Rightarrow> outcome" where
  "route_phase B sc m c =
     and_then (run_phase c (preValidation (hooks sc))) (\<lambda>c.
     and_then (validation_phase B sc m c) (\<lambda>c.
     and_then (run_phase c (preHandler (hooks sc))) (\<lambda>c.
     handler_phase m c)))"

definition not_found_phase :: "builtins \<Rightarrow> Linear \<Rightarrow> Context \<Rightarrow> outcome" where
  "not_found_phase B sc c =
     Return (send B sc (status c 404) (Obj [(''error'', Str ''Not Found''), (''path'', Str (path c))]))"

text \<open>The steps before the route is looked at: \<^verbatim>\<open>onRequest\<close>, the body, the middlewares.\<close>

definition pre_route :: "builtins \<Rightarrow> config \<Rightarrow> Linear \<Rightarrow> request \<Rightarrow> Context \<Rightarrow> outcome" where
  "pre_route B cfg sc req c =
     and_then (run_phase c (onRequest (hooks sc))) (\<lambda>c.
     and_then (body_phase B cfg req c) (\<lambda>c.
     run_phase c (middlewares sc)))"

definition try_block ::
  "builtins \<Rightarrow> config \<Rightarrow> Linear \<Rightarrow> route option \<Rightarrow> request \<Rightarrow> Context \<Rightarrow> outcome" where
  "try_block B cfg sc m req c =
     and_then (pre_route B cfg sc req c) (\<lambda>c.
       case m of
         Some r \<Rightarrow> route_phase B sc r c
       | None \<Rightarrow> not_found_phase B sc c)"

text \<open>
  The \<^verbatim>\<open>catch\<close> block: the error is recorded, the \<^verbatim>\<open>onError\<close> hooks run (what they
  throw is only logged), and a response is sent if there is none yet.
\<close>

definition error_phase :: "builtins \<Rightarrow> Linear \<Rightarrow> js_error \<Rightarrow> Context \<Rightarrow> Context" where
  "error_phase B sc e c =
     (let c1 = snd (run (c \<lparr> error := Some e \<rparr>) (onError (hooks sc)))
      in if \<not> responded c1 then
           send B sc
             (status c1 (if statusCode (res c1) = 200 then 500 else statusCode (res c1)))
             (Obj [(''error'', Str (if message e \<noteq> [] then message e
                                    else ''Internal Server Error''))])
         else c1)"

text \<open>
  The watchdog. \<^verbatim>\<open>setTimeout\<close> gives a timer that is pending until its callback has
  run or \<^verbatim>\<open>clearTimeout\<close> has cancelled it; when the delay has elapsed the event loop
  runs the callback, given here by its effect \<open>cb\<close> on the context, only if the timer is
  still pending. \<open>clears\<close> counts the calls of \<^verbatim>\<open>clearTimeout\<close>.
\<close>

datatype timer_state = Pending | Fired | Cleared

record dispatch =
  dctx :: Context
  timer :: timer_state
  clears :: nat

definition timer_elapses :: "(Context \<Rightarrow> Context) \<Rightarrow> dispatch \<Rightarrow> dispatch" where
  "timer_elapses cb d =
     (if timer d = Pending then d \<lparr> dctx := cb (dctx d), timer := Fired \<rparr> else d)"

definition clearTimeout :: "dispatch \<Rightarrow> dispatch" where
  "clearTimeout d =
     d \<lparr> timer := (if timer d = Pending then Cleared else timer d), clears := clears d + 1 \<rparr>"

text \<open>
  The context that the callback creates for the scope \<open>sc\<close> and the match \<open>m\<close> that the
  lookup has given: \<^verbatim>\<open>scope.createContext(req, res)\<close>, then
  \<^verbatim>\<open>if (match) ctx.params = match.params\<close>.
\<close>

definition initial_context ::
  "Linear \<Rightarrow> (route \<times> (string \<times> string) list) option \<Rightarrow> request \<Rightarrow> response \<Rightarrow> Context" where
  "initial_context sc m req rs =
     (case m of
        None \<Rightarrow> createContext sc req rs
      | Some (r, ps) \<Rightarrow>
          (createContext sc req rs) \<lparr> params := Obj (map (\<lambda>kv. (fst kv, Str (snd kv))) ps) \<rparr>)"

text \<open>
  The request callback of \<^verbatim>\<open>listen\<close> from the creation of the context on: the timer
  is started, the \<^verbatim>\<open>try\<close> block runs, an error goes to the \<^verbatim>\<open>catch\<close> block, and
  \<^verbatim>\<open>finally\<close> clears the timer. A handler stands for a call that has settled when
  \<^verbatim>\<open>run\<close> goes on, and the body of the request has arrived when it is read, both
  before the delay of the timer has elapsed; so the timer is pending throughout. Where
  the source calls \<^verbatim>\<open>send\<close> without awaiting it, only \<^verbatim>\<open>return\<close> and the
  \<^verbatim>\<open>finally\<close> block follow, which do not touch the context, so the call is taken with
  its whole effect.
\<close>

definition lifecycle ::
  "builtins \<Rightarrow> config \<Rightarrow> Linear \<Rightarrow> (route \<times> (string \<times> string) list) option \<Rightarrow>
   request \<Rightarrow> response \<Rightarrow> dispatch" where
  "lifecycle B cfg sc m req rs =
     (let c1 = initial_context sc m req rs;
          started = \<lparr> dctx = c1, timer = Pending, clears = 0 \<rparr>;
          c2 = (case try_block B cfg sc (map_option fst m) req c1 of
                  Continue c \<Rightarrow> c
                | Return c \<Rightarrow> c
                | Throw e c \<Rightarrow> error_phase B sc e c)
      in clearTimeout (started \<lparr> dctx := c2 \<rparr>))"

text \<open>
  \<^verbatim>\<open>const router = this.routers[req.method]; const match = router ? router.lookup(url.pathname) : null\<close>.
  For a verb that names a member which \<^verbatim>\<open>routers\<close> inherits, \<^verbatim>\<open>router\<close> is truthy
  and has no \<^verbatim>\<open>lookup\<close>.
\<close>

definition find_route ::
  "app \<Rightarrow> request \<Rightarrow> js_error + (route \<times> (string \<times> string) list) option" where
  "find_route a req =
     (case map_of (routers a) (req_method req) of
        None \<Rightarrow>
          (if req_method req \<in> set object_prototype_names
           then Inl (Error ''router.lookup is not a function'')
           else Inr None)
      | Some router \<Rightarrow> lookup (realm a) router (pathname req))"

text \<open>
  The whole callback for the instance \<open>this\<close> that \<^verbatim>\<open>listen\<close> was called on: the
  router of the verb looks the path up; the scope is the one of the matched route, or
  \<open>this\<close> without a match. The lookup happens before the \<^verbatim>\<open>try\<close> block: when it
  throws, the callback ends with that error, and no context, timer or response comes
  to be.
\<close>

definition handle_request ::
  "builtins \<Rightarrow> app \<Rightarrow> nat \<Rightarrow> request \<Rightarrow> response \<Rightarrow> js_error + dispatch" where
  "handle_request B a this req rs =
     (case find_route a req of
        Inl e \<Rightarrow> Inl e
      | Inr m \<Rightarrow>
          Inr (lifecycle B (rootConfig a)
                 (scopes a ! (case m of None \<Rightarrow> this | Some (r, ps) \<Rightarrow> scope r)) m req rs))"

section \<open>Sequences of registration calls\<close>

text \<open>
  The calls that build an application, each on the scope it names. A plugin is a function
  that makes such calls on the scope it is handed, so a registration phase is a sequence
  of them. \<open>Register\<close> carries the plugin's skip-override tag and \<^verbatim>\<open>options.prefix\<close>.
  Every scope that a call names exists when the call is made, and a call that throws
  is caught by its caller, who goes on with the state that the call has left.
\<close>

datatype op =
    Decorate nat string jsval
  | Use nat handler
  | AddHook nat string handler
  | SetValidatorCompiler nat "jsval \<Rightarrow> validator"
  | Register nat bool "string option"
  | AddRoute nat string string "handler list" jsval

fun op_scope :: "op \<Rightarrow> nat" where
  "op_scope (Decorate sid name v) = sid"
| "op_scope (Use sid fn) = sid"
| "op_scope (AddHook sid name fn) = sid"
| "op_scope (SetValidatorCompiler sid compiler) = sid"
| "op_scope (Register sid skip opt_prefix) = sid"
| "op_scope (AddRoute sid verb route_path hs sch) = sid"

fun call :: "app \<Rightarrow> op \<Rightarrow> app" where
  "call a (Decorate sid name v) = decorate a sid name v"
| "call a (Use sid fn) = use a sid fn"
| "call a (AddHook sid name fn) = snd (addHook a sid name fn)"
| "call a (SetValidatorCompiler sid compiler) = setValidatorCompiler a sid compiler"
| "call a (Register sid skip opt_prefix) = fst (register a sid skip opt_prefix)"
| "call a (AddRoute sid verb route_path hs sch) = snd (addRoute a sid verb route_path hs sch)"

definition apply_op :: "app \<Rightarrow> op \<Rightarrow> app" where
  "apply_op a x = (if op_scope x < length (scopes a) then call a x else a)"

definition apply_ops :: "app \<Rightarrow> op list \<Rightarrow> app" where
  "apply_ops a xs = foldl apply_op a xs"

text \<open>
  The functions that a sequence of calls adds to the middleware list of the scope \<open>sid\<close>,
  and to its hook list of the given name, in the order of the calls.
\<close>

fun used_by :: "nat \<Rightarrow> op list \<Rightarrow> handler list" where
  "used_by sid [] = []"
| "used_by sid (Use s fn # xs) = (if s = sid then fn # used_by sid xs else used_by sid xs)"
| "used_by sid (x # xs) = used_by sid xs"

fun hooked_by :: "nat \<Rightarrow> string \<Rightarrow> op list \<Rightarrow> handler list" where
  "hooked_by sid name [] = []"
| "hooked_by sid name (AddHook s n fn # xs) =
     (if s = sid \<and> n = name then fn # hooked_by sid name xs else hooked_by sid name xs)"
| "hooked_by sid name (x # xs) = hooked_by sid name xs"

text \<open>\<^verbatim>\<open>hooks[name]\<close> for the seven names of the hook lists.\<close>

definition hook_names :: "string list" where
  "hook_names =
     [''onRequest'', ''preValidation'', ''preHandler'', ''onSend'', ''onResponse'',
      ''onError'', ''onTimeout'']"

definition hook_list :: "hook_lists \<Rightarrow> string \<Rightarrow> handler list" where
  "hook_list h name =
     (if name = ''onRequest'' then onRequest h
      else if name = ''preValidation'' then preValidation h
      else if name = ''preHandler'' then preHandler h
      else if name = ''onSend'' then onSend h
      else if name = ''onResponse'' then onResponse h
      else if name = ''onError'' then onError h
      else if name = ''onTimeout'' then onTimeout h
      else [])"







section \<open>Concrete inputs\<close>

text \<open>
  Inputs for instantiating the theorems below: stand-ins for the library functions, the
  root scope of a fresh application, two requests and the contexts made for them.
\<close>

definition example_builtins :: builtins where
  "example_builtins =
     \<lparr> JSON_stringify = (\<lambda>v. ''<json>''),
       JSON_parse = (\<lambda>s. Inr (Obj [])),
       parseQuery = (\<lambda>s. Obj []) \<rparr>"

text \<open>A handler that sets the status code and one that returns without doing anything.\<close>

definition mark :: "int \<Rightarrow> handler" where
  "mark code = (\<lambda>c. (None, status c code))"

definition silent :: handler where
  "silent = (\<lambda>c. (None, c))"

definition default_options :: config_options where
  "default_options = \<lparr> opt_timeout = None, opt_bodyLimit = None, opt_parseBody = None \<rparr>"

definition root_scope :: Linear where
  "root_scope = scopes (new_root default_options) ! 0"

definition get_request :: request where
  "get_request =
     \<lparr> req_method = ''GET'', pathname = ''/items/7'', searchParams = [],
       content_type = None, events = [] \<rparr>"


definition fresh_context :: Context where
  "fresh_context = createContext root_scope get_request new_response"



text \<open>
  An application whose root scope has an \<^verbatim>\<open>onTimeout\<close> hook and the route
  \<^verbatim>\<open>GET /items/:id\<close> with a handler that returns without sending.
\<close>

definition silent_app :: app where
  "silent_app =
     apply_ops (new_root default_options)
       [AddHook 0 ''onTimeout'' (mark 599),
        AddRoute 0 ''GET'' ''/items/:id'' [silent] Null]"

text \<open>
  An application whose root scope is decorated with \<open>db\<close> before and with \<open>cache\<close> after
  a plugin is registered under the prefix \<^verbatim>\<open>/api\<close>; the plugin's scope has the route
  \<^verbatim>\<open>GET /items/:id\<close>, whose handler is \<^verbatim>\<open>ctx => ctx.send(ctx.db)\<close>.
\<close>

definition decorated_scopes :: app where
  "decorated_scopes =
     apply_ops (new_root default_options)
       [Decorate 0 ''db'' (Str ''conn''),
        Register 0 False (Some ''/api''),
        Decorate 0 ''cache'' (Str ''redis'')]"

definition send_db :: "builtins \<Rightarrow> handler" where
  "send_db B = (\<lambda>c. (None, send B (scopes decorated_scopes ! 1) c (field c ''db'')))"

definition decorated_app :: "builtins \<Rightarrow> app" where
  "decorated_app B = apply_ops decorated_scopes [AddRoute 1 ''GET'' ''/items/:id'' [send_db B] Null]"

definition api_request :: request where
  "api_request =
     \<lparr> req_method = ''GET'', pathname = ''/api/items/7'', searchParams = [],
       content_type = None, events = [] \<rparr>"

text \<open>
  Routers for instantiating the theorems on the router: one where the literal route
  \<^verbatim>\<open>/a/b\<close> shadows the parametric route \<^verbatim>\<open>/:x/c\<close>, one with the single route
  \<^verbatim>\<open>/:id\<close>, one with two routes that name the parameter at the root differently, and
  one whose first route names it \<^verbatim>\<open>__proto__\<close>; each with the shared objects as they
  are after its inserts.
\<close>

definition shadowing_router :: "nat realm \<times> nat Router" where
  "shadowing_router = insert_all (new_realm, new_Router) [(''/a/b'', 1), (''/:x/c'', 2)]"

definition id_router :: "nat realm \<times> nat Router" where
  "id_router = insert_all (new_realm, new_Router) [(''/:id'', 1)]"

definition two_names_router :: "nat realm \<times> nat Router" where
  "two_names_router = insert_all (new_realm, new_Router) [(''/:a'', 1), (''/:b'', 2)]"

definition proto_named_router :: "nat realm \<times> nat Router" where
  "proto_named_router = insert_all (new_realm, new_Router) [(''/:__proto__'', 1), (''/:b'', 2)]"


text \<open>
  An application whose root scope has an \<^verbatim>\<open>onRequest\<close> and an \<^verbatim>\<open>onResponse\<close> hook
  when a plugin is registered under the prefix \<^verbatim>\<open>/api\<close>, and gets a middleware
  afterwards; the plugin's scope has a middleware of its own and the route
  \<^verbatim>\<open>GET /items/:id\<close>, whose handler is \<^verbatim>\<open>ctx => ctx.send('ok')\<close>. \<open>tag l\<close> is a
  function that appends \<open>l\<close> to the header \<^verbatim>\<open>X-Trace\<close> of the response.
\<close>

definition tag :: "string \<Rightarrow> handler" where
  "tag l =
     (\<lambda>c. (None, setHeader c ''X-Trace''
                   (Str (js_String (if truthy (res_getHeader (res c) ''X-Trace'')
                                    then res_getHeader (res c) ''X-Trace'' else Str []) @ l))))"

definition hooked_scopes :: app where
  "hooked_scopes =
     apply_ops (new_root default_options)
       [AddHook 0 ''onRequest'' (tag ''a''),
        AddHook 0 ''onResponse'' (tag ''z''),
        Register 0 False (Some ''/api''),
        Use 0 (tag ''b''),
        Use 1 (tag ''c'')]"

definition send_ok :: "builtins \<Rightarrow> handler" where
  "send_ok B = (\<lambda>c. (None, send B (scopes hooked_scopes ! 1) c (Str ''ok'')))"

definition hooked_app :: "builtins \<Rightarrow> app" where
  "hooked_app B = apply_ops hooked_scopes [AddRoute 1 ''GET'' ''/items/:id'' [send_ok B] Null]"




section \<open>Properties of the router\<close>

lemma map_of_update: "map_of (AList.update k v al) = (map_of al)(k \<mapsto> v)"
  by (rule update_conv')

lemma startsWith_colon_Cons: "startsWith_colon (CHR '':'' # A)"
  by (simp add: startsWith_colon_def)

lemma slice1_Cons: "slice1 (c # A) = A"
  by (simp add: slice1_def)


lemma insert_parts_Nil: "insert_parts rl n [] d = (None, rl, Node (part n) (isParam n) (paramName n) (children n) (paramChild n) (Some d))"
  by (cases n) simp

lemma insert_parts_param:
  "startsWith_colon seg \<Longrightarrow>
   insert_parts rl n (seg # segs) d =
     (case insert_parts rl (case paramChild n of None \<Rightarrow> param_Node seg | Some c \<Rightarrow> c) segs d of
        (e, rl', c') \<Rightarrow> (e, rl', Node (part n) (isParam n) (paramName n) (children n) (Some c') (store n)))"
  by (cases n) simp

lemma insert_parts_own:
  "\<not> startsWith_colon seg \<Longrightarrow> map_of (children n) seg = Some c \<Longrightarrow>
   insert_parts rl n (seg # segs) d =
     (case insert_parts rl c segs d of
        (e, rl', c') \<Rightarrow>
          (e, rl', Node (part n) (isParam n) (paramName n) (AList.update seg c' (children n))
                     (paramChild n) (store n)))"
  by (cases n) simp

lemma insert_parts_new:
  "\<not> startsWith_colon seg \<Longrightarrow> map_of (children n) seg = None \<Longrightarrow> inherited rl seg = None \<Longrightarrow>
   insert_parts rl n (seg # segs) d =
     (case insert_parts rl (new_Node seg False) segs d of
        (e, rl', c') \<Rightarrow>
          (e, rl', Node (part n) (isParam n) (paramName n) (AList.update seg c' (children n))
                     (paramChild n) (store n)))"
  by (cases n) simp

lemma insert_parts_away:
  "\<not> startsWith_colon seg \<Longrightarrow> map_of (children n) seg = None \<Longrightarrow> inherited rl seg = Some cur \<Longrightarrow>
   insert_parts rl n (seg # segs) d =
     (case realm_insert rl cur segs d of (e, rl') \<Rightarrow> (e, rl', n))"
  by (cases n) simp


text \<open>The shape of the node that an insert leaves in place of the node it started from.\<close>

lemma insert_parts_cases:
  obtains (stored) "segs = []"
      "snd (snd (insert_parts rl n segs d)) =
         Node (part n) (isParam n) (paramName n) (children n) (paramChild n) (Some d)"
  | (param) seg rest where "segs = seg # rest" "startsWith_colon seg"
      "snd (snd (insert_parts rl n segs d)) =
         Node (part n) (isParam n) (paramName n) (children n)
           (Some (snd (snd (insert_parts rl (case paramChild n of None \<Rightarrow> param_Node seg | Some c \<Rightarrow> c) rest d))))
           (store n)"
  | (literal) seg rest where "segs = seg # rest" "\<not> startsWith_colon seg"
      "map_of (children n) seg \<noteq> None \<or> inherited rl seg = None"
      "snd (snd (insert_parts rl n segs d)) =
         Node (part n) (isParam n) (paramName n)
           (AList.update seg
              (snd (snd (insert_parts rl (case map_of (children n) seg of None \<Rightarrow> new_Node seg False | Some c \<Rightarrow> c) rest d)))
              (children n))
           (paramChild n) (store n)"
  | (away) seg rest where "segs = seg # rest" "\<not> startsWith_colon seg"
      "map_of (children n) seg = None" "inherited rl seg \<noteq> None"
      "snd (snd (insert_parts rl n segs d)) = n"
proof (cases segs)
  case Nil
  then show ?thesis using stored by (simp add: insert_parts_Nil)
next
  case (Cons seg rest)
  show ?thesis
  proof (cases "startsWith_colon seg")
    case True
    then show ?thesis using param[OF Cons True] Cons
      by (simp add: insert_parts_param split: prod.splits)
  next
    case False
    show ?thesis
    proof (cases "map_of (children n) seg")
      case (Some c)
      then show ?thesis using literal[OF Cons False] Cons False
        by (simp add: insert_parts_own split: prod.splits)
    next
      case None
      show ?thesis
      proof (cases "inherited rl seg")
        case inh: None
        then show ?thesis using literal[OF Cons False] Cons False None
          by (simp add: insert_parts_new split: prod.splits)
      next
        case (Some cur)
        then show ?thesis using away[OF Cons False None] Cons False None
          by (simp add: insert_parts_away split: prod.splits)
      qed
    qed
  qed
qed




lemma literal_keys_ok_sel:
  "literal_keys_ok n =
     (list_all (\<lambda>kc. \<not> startsWith_colon (fst kc) \<and> literal_keys_ok (snd kc)) (children n) \<and>
      (case paramChild n of None \<Rightarrow> True | Some c \<Rightarrow> literal_keys_ok c))"
  by (cases n) simp




lemma root_insert:
  "root (snd (snd (insert rl R p d))) = snd (snd (insert_parts rl (root R) (path_parts p) d))"
  by (simp add: insert_def case_prod_beta)

lemma paramName_insert_parts:
  "paramName (snd (snd (insert_parts rl n segs d))) = paramName n"
  by (cases rule: insert_parts_cases[of segs rl n d]) simp_all

lemma param_at_insert_keep:
  "param_at n pos = Some A \<Longrightarrow> param_at (snd (snd (insert_parts rl n segs d))) pos = Some A"
proof (induction pos arbitrary: n segs)
  case Nil
  then show ?case
    by (cases rule: insert_parts_cases[of segs rl n d])
       (auto simp: param_at_def paramName_insert_parts split: option.splits)
next
  case (Cons s pos)
  show ?case
  proof (cases "startsWith_colon s")
    case True
    with Cons.prems obtain c where c: "paramChild n = Some c" "param_at c pos = Some A"
      by (auto simp: param_at_def split: option.splits)
    show ?thesis
    proof (cases rule: insert_parts_cases[of segs rl n d])
      case (param seg rest)
      from Cons.IH[OF c(2), of rest] show ?thesis using True c param
        by (simp add: param_at_def)
    qed (use True c in \<open>auto simp: param_at_def\<close>)
  next
    case False
    with Cons.prems obtain c where c: "map_of (children n) s = Some c" "param_at c pos = Some A"
      by (auto simp: param_at_def split: option.splits)
    show ?thesis
    proof (cases rule: insert_parts_cases[of segs rl n d])
      case (literal seg rest)
      from Cons.IH[OF c(2), of rest] show ?thesis using False c literal
        by (cases "seg = s") (simp_all add: param_at_def map_of_update)
    qed (use False c in \<open>auto simp: param_at_def\<close>)
  qed
qed

lemma param_at_insert_create:
  "param_at n pos = None \<Longrightarrow> \<forall>seg\<in>set pos. inherited rl seg = None \<Longrightarrow>
   param_at (snd (snd (insert_parts rl n (pos @ (CHR '':'' # A) # rest) d))) pos = Some A"
proof (induction pos arbitrary: n)
  case Nil
  then have none: "paramChild n = None" by (auto simp: param_at_def split: option.splits)
  have "paramName (snd (snd (insert_parts rl (param_Node (CHR '':'' # A)) rest d))) = A"
    by (simp add: paramName_insert_parts param_Node_def slice1_Cons)
  then show ?case using none
    by (simp add: insert_parts_param startsWith_colon_Cons param_at_def case_prod_beta)
next
  case (Cons s pos)
  from Cons.prems have rest: "\<forall>seg\<in>set pos. inherited rl seg = None" and here: "inherited rl s = None"
    by simp_all
  show ?case
  proof (cases "startsWith_colon s")
    case True
    have "param_at (case paramChild n of None \<Rightarrow> param_Node s | Some c \<Rightarrow> c) pos = None"
    proof (cases "paramChild n")
      case None
      show ?thesis using None by (cases pos) (auto simp: param_at_def param_Node_def)
    next
      case (Some c)
      then show ?thesis using Cons.prems(1) True by (auto simp: param_at_def)
    qed
    from Cons.IH[OF this rest] show ?thesis using True
      by (simp add: insert_parts_param param_at_def case_prod_beta)
  next
    case False
    show ?thesis
    proof (cases "map_of (children n) s")
      case None
      have "param_at (new_Node s False :: 'a node) pos = None"
        by (cases pos) (auto simp: param_at_def new_Node_def)
      from Cons.IH[OF this rest] show ?thesis using False None here
        by (simp add: insert_parts_new param_at_def map_of_update case_prod_beta)
    next
      case (Some c)
      with Cons.prems(1) False have "param_at c pos = None" by (auto simp: param_at_def)
      from Cons.IH[OF this rest] show ?thesis using False Some
        by (simp add: insert_parts_own param_at_def map_of_update case_prod_beta)
    qed
  qed
qed

lemma insert_parts_name_ignored:
  "param_at n pos \<noteq> None \<Longrightarrow>
   insert_parts rl n (pos @ (CHR '':'' # B) # rest) d = insert_parts rl n (pos @ (CHR '':'' # A) # rest) d"
proof (induction pos arbitrary: n)
  case Nil
  then show ?case
    by (cases n) (auto simp: param_at_def startsWith_colon_Cons split: option.splits)
next
  case (Cons s pos)
  show ?case
  proof (cases "startsWith_colon s")
    case True
    with Cons.prems obtain c where c: "paramChild n = Some c" "param_at c pos \<noteq> None"
      by (auto simp: param_at_def split: option.splits)
    from Cons.IH[OF c(2)] show ?thesis using True c by (simp add: insert_parts_param)
  next
    case False
    with Cons.prems obtain c where c: "map_of (children n) s = Some c" "param_at c pos \<noteq> None"
      by (auto simp: param_at_def split: option.splits)
    from Cons.IH[OF c(2)] show ?thesis using False c by (simp add: insert_parts_own)
  qed
qed

lemma param_at_insert_all_keep:
  "param_at (root (snd s)) pos = Some A \<Longrightarrow> param_at (root (snd (insert_all s later))) pos = Some A"
proof (induction later arbitrary: s)
  case Nil
  then show ?case by simp
next
  case (Cons qd later)
  obtain q d where qd: "qd = (q, d)" by (cases qd)
  have "param_at (root (snd (snd (insert (fst s) (snd s) q d)))) pos = Some A"
    using Cons.prems by (simp add: root_insert param_at_insert_keep)
  from Cons.IH[OF this] show ?case using qd by simp
qed



lemma plain_names_sel:
  "plain_names n =
     (paramName n \<noteq> ''__proto__'' \<and> list_all (\<lambda>kc. plain_names (snd kc)) (children n) \<and>
      (case paramChild n of None \<Rightarrow> True | Some c \<Rightarrow> plain_names c))"
  by (cases n) simp

lemma plain_names_map_of:
  "list_all (\<lambda>kc. plain_names (snd kc)) al \<Longrightarrow> map_of al k = Some v \<Longrightarrow> plain_names v"
  by (induction al) (auto split: if_splits)

lemma lookup_refines_spec:
  "\<forall>seg\<in>set segs. inherited rl seg = None \<Longrightarrow> plain_names n \<Longrightarrow>
   lookup_parts rl n segs ps = Inr (spec_lookup n segs ps)"
proof (induction segs arbitrary: n ps)
  case Nil
  show ?case by simp
next
  case (Cons seg segs)
  from Cons.prems have rest: "\<forall>s\<in>set segs. inherited rl s = None" and here: "inherited rl seg = None"
    by simp_all
  show ?case
  proof (cases "map_of (children n) seg")
    case (Some c)
    have "plain_names c" using Some Cons.prems(2) plain_names_map_of[of "children n" seg c]
      by (simp add: plain_names_sel[of n])
    from Cons.IH[OF rest this] show ?thesis using Some by simp
  next
    case None
    show ?thesis
    proof (cases "paramChild n")
      case pc: None
      then show ?thesis using None here by simp
    next
      case (Some c)
      have c: "plain_names c" using Some Cons.prems(2) by (simp add: plain_names_sel[of n])
      then have "paramName c \<noteq> ''__proto__''" by (simp add: plain_names_sel[of c])
      then show ?thesis using Cons.IH[OF rest c] Some None here by (simp add: capture_def)
    qed
  qed
qed

text \<open>
  Claim C4. At a position \<open>pos\<close> of the trie of a router where no parametric child
  exists yet, an insert of a path with the parametric segment \<open>:A\<close> at that position
  creates the child with the name \<open>A\<close>, and whatever is inserted later (\<open>later\<close> is
  arbitrary) the child keeps it: the name stored at the position is \<open>A\<close>; an insert that
  comes to the position with another name \<open>:B\<close> does what the same insert with \<open>:A\<close>
  does, so \<open>B\<close> is stored nowhere; and a lookup that takes the parametric child at the
  position makes its capture under \<open>A\<close>. That capture is the assignment
  \<^verbatim>\<open>params[A] = part\<close>, which stores the segment unless \<open>A\<close> is \<^verbatim>\<open>__proto__\<close>: with
  the routes \<^verbatim>\<open>/:__proto__\<close> and \<^verbatim>\<open>/:b\<close> the lookup of \<^verbatim>\<open>/5\<close> matches and captures
  nothing. And a lookup takes the parametric child only for a segment that the dictionary
  does not inherit: with the routes \<^verbatim>\<open>/:a\<close> and \<^verbatim>\<open>/:b\<close> the lookup of
  \<^verbatim>\<open>/toString\<close> finds no match, where a lookup that prefers a literal child and
  otherwise takes the parametric child captures \<open>toString\<close> under \<open>a\<close>. In these two
  cases the segment is not captured under the first name, so the claim does not hold of
  the code for every name and every lookup.
\<close>

theorem param_name_first_wins:
  assumes p1: "path_parts p1 = pos @ (CHR '':'' # A) # rest1"
    and own: "\<forall>seg\<in>set pos. inherited rl seg = None"
    and fresh: "param_at (root R) pos = None"
    and s2: "s2 = insert_all (snd (insert rl R p1 d1)) later"
  shows "param_at (root (snd s2)) pos = Some A \<and>
         (\<forall>B rest2 d2 rl'.
            insert_parts rl' (root (snd s2)) (pos @ (CHR '':'' # B) # rest2) d2 =
            insert_parts rl' (root (snd s2)) (pos @ (CHR '':'' # A) # rest2) d2) \<and>
         (\<forall>m v segs ps rl'.
            node_at (root (snd s2)) pos = Some m \<and> map_of (children m) v = None \<and>
            inherited rl' v = None \<longrightarrow>
            (\<exists>c. paramChild m = Some c \<and> paramName c = A \<and>
                 lookup_parts rl' m (v # segs) ps = lookup_parts rl' c segs (capture A v ps))) \<and>
         (\<forall>v ps. capture A v ps = (if A = ''__proto__'' then ps else AList.update A v ps)) \<and>
         param_at (root (snd proto_named_router)) [] = Some ''__proto__'' \<and>
         lookup (fst proto_named_router) (snd proto_named_router) ''/5'' = Inr (Some (2, [])) \<and>
         param_at (root (snd two_names_router)) [] = Some ''a'' \<and>
         lookup (fst two_names_router) (snd two_names_router) ''/toString'' = Inr None \<and>
         spec_lookup (root (snd two_names_router)) [''toString''] [] =
           Some (2, [(''a'', ''toString'')])"
proof -
  have "param_at (root (snd (snd (insert rl R p1 d1)))) pos = Some A"
    using fresh own p1 by (simp add: root_insert param_at_insert_create)
  then have name: "param_at (root (snd s2)) pos = Some A"
    unfolding s2 by (rule param_at_insert_all_keep)
  have ign: "\<forall>B rest2 d2 rl'.
            insert_parts rl' (root (snd s2)) (pos @ (CHR '':'' # B) # rest2) d2 =
            insert_parts rl' (root (snd s2)) (pos @ (CHR '':'' # A) # rest2) d2"
    using name insert_parts_name_ignored[of "root (snd s2)" pos] by simp
  have cap: "\<forall>m v segs ps rl'.
            node_at (root (snd s2)) pos = Some m \<and> map_of (children m) v = None \<and>
            inherited rl' v = None \<longrightarrow>
            (\<exists>c. paramChild m = Some c \<and> paramName c = A \<and>
                 lookup_parts rl' m (v # segs) ps = lookup_parts rl' c segs (capture A v ps))"
    using name by (auto simp: param_at_def split: option.splits)
  have upd: "\<forall>v ps. capture A v ps = (if A = ''__proto__'' then ps else AList.update A v ps)"
    by (simp add: capture_def)
  have ex1: "param_at (root (snd proto_named_router)) [] = Some ''__proto__''"
    "lookup (fst proto_named_router) (snd proto_named_router) ''/5'' = Inr (Some (2, []))"
    by (simp_all add: proto_named_router_def lookup_def insert_def new_Router_def new_Node_def
          new_realm_def path_parts_def startsWith_colon_def slice1_def param_Node_def
          param_at_def capture_def inherited_def object_prototype_names_def object_of_def proto_def)
  have ex2: "param_at (root (snd two_names_router)) [] = Some ''a''"
    "lookup (fst two_names_router) (snd two_names_router) ''/toString'' = Inr None"
    "spec_lookup (root (snd two_names_router)) [''toString''] [] = Some (2, [(''a'', ''toString'')])"
    by (simp_all add: two_names_router_def lookup_def insert_def new_Router_def new_Node_def
          new_realm_def path_parts_def startsWith_colon_def slice1_def param_Node_def
          param_at_def capture_def inherited_def object_prototype_names_def object_of_def proto_def)
  from name ign cap upd ex1 ex2 show ?thesis by blast
qed

theorem param_name_first_wins_witness:
  "param_at (root (snd (insert_all (snd (insert new_realm new_Router ''/u/:a/x'' (1::nat))) [(''/u/:b'', 2)])))
       [''u''] = Some ''a'' \<and>
   lookup (fst (insert_all (snd (insert new_realm new_Router ''/u/:a/x'' (1::nat))) [(''/u/:b'', 2)]))
          (snd (insert_all (snd (insert new_realm new_Router ''/u/:a/x'' (1::nat))) [(''/u/:b'', 2)]))
          ''/u/7'' = Inr (Some (2, [(''a'', ''7'')]))"
proof -
  have parts: "path_parts ''/u/:a/x'' = [''u''] @ (CHR '':'' # ''a'') # [''x'']"
    by (simp add: path_parts_def)
  have own: "\<forall>seg\<in>set [''u'']. inherited (new_realm :: nat realm) seg = None"
    by (simp add: inherited_def object_prototype_names_def)
  have fresh: "param_at (root (new_Router :: nat Router)) [''u''] = None"
    by (simp add: param_at_def new_Router_def new_Node_def startsWith_colon_def)
  from param_name_first_wins[OF parts own fresh refl, of 1 "[(''/u/:b'', 2)]"]
  have "param_at (root (snd (insert_all (snd (insert new_realm new_Router ''/u/:a/x'' (1::nat))) [(''/u/:b'', 2)])))
       [''u''] = Some ''a''"
    by blast
  moreover have "lookup (fst (insert_all (snd (insert new_realm new_Router ''/u/:a/x'' (1::nat))) [(''/u/:b'', 2)]))
          (snd (insert_all (snd (insert new_realm new_Router ''/u/:a/x'' (1::nat))) [(''/u/:b'', 2)]))
          ''/u/7'' = Inr (Some (2, [(''a'', ''7'')]))"
    by (simp add: lookup_def insert_def new_Router_def new_Node_def new_realm_def path_parts_def
          startsWith_colon_def slice1_def param_Node_def capture_def inherited_def
          object_prototype_names_def object_of_def proto_def)
  ultimately show ?thesis by simp
qed

text \<open>
  An insert of a path with a segment that the dictionaries inherit does not store the
  record in the trie: \<^verbatim>\<open>insert('/toString/x', 1)\<close> on a new router throws, and
  \<^verbatim>\<open>insert('/constructor', 1)\<close> puts the record on the function \<^verbatim>\<open>Object\<close>, where
  an insert of \<^verbatim>\<open>/x/constructor\<close> replaces it.
\<close>

lemma insert_inherited_segment:
  "fst (insert (new_realm :: nat realm) new_Router ''/toString/x'' 1) = Some (no_children ''x'') \<and>
   lookup (fst (insert_all (new_realm, new_Router) [(''/constructor'', 1::nat), (''/x/constructor'', 2)]))
          (snd (insert_all (new_realm, new_Router) [(''/constructor'', 1::nat), (''/x/constructor'', 2)]))
          ''/constructor'' = Inr (Some (2, []))"
  by (simp add: lookup_def insert_def new_Router_def new_Node_def new_realm_def path_parts_def
        startsWith_colon_def slice1_def param_Node_def capture_def inherited_def
        object_prototype_names_def object_of_def proto_def)




text \<open>
  Claim C3. On every trie and every path, the lookup of the source is the lookup that
  takes the literal child when there is one for the segment, takes the parametric child,
  capturing the segment under the child's stored name, only when there is none, and
  returns no match with neither (\<open>spec_lookup\<close>), provided that no segment is a name
  that the dictionaries inherit and no parameter is named \<^verbatim>\<open>__proto__\<close>. It never
  returns to a node: in the trie holding \<^verbatim>\<open>/a/b\<close> and \<^verbatim>\<open>/:x/c\<close> the path \<^verbatim>\<open>/a/c\<close> has
  no match, although the parametric child of the root, entered with \<open>x = a\<close>, leads to
  the record stored for \<^verbatim>\<open>/:x/c\<close>. For a segment that names a member of
  \<^verbatim>\<open>Object.prototype\<close> the source does not do what the claim says: no node has a
  literal child \<open>toString\<close> in the trie holding \<^verbatim>\<open>/:id\<close>, yet the lookup of
  \<^verbatim>\<open>/toString\<close> does not fall through to the parametric child and returns no match,
  and the lookup of \<^verbatim>\<open>/constructor/x\<close> throws.
\<close>

theorem lookup_no_backtracking:
  "((\<forall>seg\<in>set segs. inherited rl seg = None) \<and> plain_names n \<longrightarrow>
      lookup_parts rl n segs ps = Inr (spec_lookup n segs ps)) \<and>
   lookup (fst shadowing_router) (snd shadowing_router) ''/a/c'' = Inr None \<and>
   (\<exists>pc. paramChild (root (snd shadowing_router)) = Some pc \<and>
         lookup_parts (fst shadowing_router) pc [''c''] (capture (paramName pc) ''a'' []) =
           Inr (Some (2, [(''x'', ''a'')]))) \<and>
   map_of (children (root (snd id_router))) ''toString'' = None \<and>
   spec_lookup (root (snd id_router)) [''toString''] [] = Some (1, [(''id'', ''toString'')]) \<and>
   lookup (fst id_router) (snd id_router) ''/toString'' = Inr None \<and>
   lookup (fst id_router) (snd id_router) ''/constructor/x'' = Inl (no_children ''x'')"
proof -
  have general: "(\<forall>seg\<in>set segs. inherited rl seg = None) \<and> plain_names n \<longrightarrow>
      lookup_parts rl n segs ps = Inr (spec_lookup n segs ps)"
    using lookup_refines_spec[of segs rl n ps] by blast
  have shadow: "lookup (fst shadowing_router) (snd shadowing_router) ''/a/c'' = Inr None"
    "\<exists>pc. paramChild (root (snd shadowing_router)) = Some pc \<and>
         lookup_parts (fst shadowing_router) pc [''c''] (capture (paramName pc) ''a'' []) =
           Inr (Some (2, [(''x'', ''a'')]))"
    by (simp_all add: shadowing_router_def lookup_def insert_def new_Router_def new_Node_def
          new_realm_def path_parts_def startsWith_colon_def slice1_def param_Node_def capture_def
          inherited_def object_prototype_names_def object_of_def proto_def)
  have inh: "map_of (children (root (snd id_router))) ''toString'' = None"
    "spec_lookup (root (snd id_router)) [''toString''] [] = Some (1, [(''id'', ''toString'')])"
    "lookup (fst id_router) (snd id_router) ''/toString'' = Inr None"
    "lookup (fst id_router) (snd id_router) ''/constructor/x'' = Inl (no_children ''x'')"
    by (simp_all add: id_router_def lookup_def insert_def new_Router_def new_Node_def
          new_realm_def path_parts_def startsWith_colon_def slice1_def param_Node_def capture_def
          inherited_def object_prototype_names_def object_of_def proto_def)
  from general shadow inh show ?thesis by blast
qed

theorem lookup_no_backtracking_witness:
  "lookup_parts (fst shadowing_router) (root (snd shadowing_router)) [''z'', ''c''] [] =
     Inr (Some (2, [(''x'', ''z'')]))"
proof -
  have own: "\<forall>seg\<in>set [''z'', ''c'']. inherited (fst shadowing_router) seg = None"
    by (simp add: shadowing_router_def inherited_def object_prototype_names_def insert_def
          new_Router_def new_Node_def new_realm_def path_parts_def startsWith_colon_def
          slice1_def param_Node_def object_of_def proto_def)
  have names: "plain_names (root (snd shadowing_router))"
    by (simp add: shadowing_router_def insert_def new_Router_def new_Node_def new_realm_def
          path_parts_def startsWith_colon_def slice1_def param_Node_def inherited_def
          object_prototype_names_def object_of_def proto_def)
  have spec: "spec_lookup (root (snd shadowing_router)) [''z'', ''c''] [] = Some (2, [(''x'', ''z'')])"
    by (simp add: shadowing_router_def insert_def new_Router_def new_Node_def new_realm_def
          path_parts_def startsWith_colon_def slice1_def param_Node_def inherited_def
          object_prototype_names_def object_of_def proto_def)
  from lookup_no_backtracking[of "[''z'', ''c'']" "fst shadowing_router" "root (snd shadowing_router)" "[]"]
       own names spec
  show ?thesis by simp
qed

section \<open>Properties of scopes\<close>

lemma scopes_decorate: "scopes (decorate a sid name v) = (scopes a) [sid := (scopes a ! sid) \<lparr> decorators := AList.update name v (decorators (scopes a ! sid)) \<rparr>]"
  by (simp add: decorate_def Let_def)

lemma scopes_use: "scopes (use a sid fn) = (scopes a) [sid := (scopes a ! sid) \<lparr> middlewares := middlewares (scopes a ! sid) @ [fn] \<rparr>]"
  by (simp add: use_def Let_def)

lemma scopes_addHook:
  "scopes (snd (addHook a sid name fn)) =
     (if name \<in> set object_prototype_names then scopes a
      else (scopes a) [sid := (scopes a ! sid) \<lparr> hooks := push_hook (hooks (scopes a ! sid)) name fn \<rparr>])"
  by (simp add: addHook_def Let_def)

lemma hook_names_not_inherited: "name \<in> set hook_names \<Longrightarrow> name \<notin> set object_prototype_names"
  by (auto simp: hook_names_def object_prototype_names_def)

lemma scopes_setValidatorCompiler: "scopes (setValidatorCompiler a sid k) = (scopes a) [sid := (scopes a ! sid) \<lparr> validatorCompiler := k \<rparr>]"
  by (simp add: setValidatorCompiler_def Let_def)

lemma scopes_addRoute: "scopes (snd (addRoute a sid verb p hs sch)) = scopes a"
  by (simp add: addRoute_def case_prod_beta split: option.splits)

lemma nth_update_same_field:
  "sid < length xs \<Longrightarrow> f y = f (xs ! s) \<Longrightarrow> f (xs[s := y] ! sid) = f (xs ! sid)"
  by (cases "s = sid") auto

lemma scopes_call_length: "length (scopes a) \<le> length (scopes (call a x))"
proof (cases x)
  case (Register s skip opt)
  then show ?thesis by (simp add: register_def new_child_def Let_def)
next
  case (AddRoute s verb p hs sch)
  then show ?thesis by (simp add: scopes_addRoute)
qed (simp_all add: scopes_decorate scopes_use scopes_addHook scopes_setValidatorCompiler)

lemma middlewares_call:
  assumes "sid < length (scopes a)"
  shows "middlewares (scopes (call a x) ! sid) = middlewares (scopes a ! sid) @ used_by sid [x]"
proof (cases x)
  case (Decorate s n v)
  then show ?thesis using assms by (simp add: scopes_decorate nth_update_same_field)
next
  case (Use s f)
  then show ?thesis using assms
    by (cases "s = sid") (simp_all add: scopes_use)
next
  case (AddHook s n f)
  then show ?thesis using assms by (simp add: scopes_addHook nth_update_same_field)
next
  case (SetValidatorCompiler s k)
  then show ?thesis using assms by (simp add: scopes_setValidatorCompiler nth_update_same_field)
next
  case (Register s skip opt)
  then show ?thesis using assms by (simp add: register_def new_child_def Let_def nth_append)
next
  case (AddRoute s verb p hs sch)
  then show ?thesis by (simp add: scopes_addRoute)
qed

lemma hook_list_push_same:
  "name \<in> set hook_names \<Longrightarrow> hook_list (push_hook h name fn) name = hook_list h name @ [fn]"
  by (auto simp: hook_names_def hook_list_def push_hook_def)

lemma hook_list_push_other:
  "n \<noteq> name \<Longrightarrow> hook_list (push_hook h n fn) name = hook_list h name"
  by (auto simp: hook_list_def push_hook_def)

lemma hooks_call:
  assumes "sid < length (scopes a)" and "name \<in> set hook_names"
  shows "hook_list (hooks (scopes (call a x) ! sid)) name =
           hook_list (hooks (scopes a ! sid)) name @ hooked_by sid name [x]"
proof (cases x)
  case (Decorate s n v)
  then show ?thesis using assms by (simp add: scopes_decorate nth_update_same_field)
next
  case (Use s f)
  then show ?thesis using assms by (simp add: scopes_use nth_update_same_field)
next
  case (AddHook s n f)
  show ?thesis
  proof (cases "s = sid \<and> n = name")
    case True
    then show ?thesis using assms AddHook
      by (simp add: scopes_addHook hook_list_push_same hook_names_not_inherited)
  next
    case False
    then have "hook_list (push_hook (hooks (scopes a ! s)) n f) name = hook_list (hooks (scopes a ! s)) name \<or> s \<noteq> sid"
      using hook_list_push_other[of n name] by blast
    then show ?thesis using assms AddHook False
      by (cases "s = sid") (auto simp: scopes_addHook)
  qed
next
  case (SetValidatorCompiler s k)
  then show ?thesis using assms by (simp add: scopes_setValidatorCompiler nth_update_same_field)
next
  case (Register s skip opt)
  then show ?thesis using assms by (simp add: register_def new_child_def Let_def nth_append)
next
  case (AddRoute s verb p hs sch)
  then show ?thesis by (simp add: scopes_addRoute)
qed

lemma scopes_apply_op_length: "length (scopes a) \<le> length (scopes (apply_op a x))"
  by (simp add: apply_op_def scopes_call_length)

lemma used_by_other: "op_scope x \<noteq> sid \<Longrightarrow> used_by sid [x] = []"
  by (cases x) simp_all

lemma hooked_by_other: "op_scope x \<noteq> sid \<Longrightarrow> hooked_by sid name [x] = []"
  by (cases x) simp_all

lemma middlewares_apply_op:
  assumes "sid < length (scopes a)"
  shows "middlewares (scopes (apply_op a x) ! sid) = middlewares (scopes a ! sid) @ used_by sid [x]"
proof (cases "op_scope x < length (scopes a)")
  case True
  then show ?thesis using middlewares_call[OF assms, of x] by (simp add: apply_op_def)
next
  case False
  with assms have "op_scope x \<noteq> sid" by auto
  then show ?thesis using False used_by_other[of x sid] by (simp add: apply_op_def)
qed

lemma hooks_apply_op:
  assumes "sid < length (scopes a)" and "name \<in> set hook_names"
  shows "hook_list (hooks (scopes (apply_op a x) ! sid)) name =
           hook_list (hooks (scopes a ! sid)) name @ hooked_by sid name [x]"
proof (cases "op_scope x < length (scopes a)")
  case True
  then show ?thesis using hooks_call[OF assms, of x] by (simp add: apply_op_def)
next
  case False
  with assms have "op_scope x \<noteq> sid" by auto
  then show ?thesis using False hooked_by_other[of x sid name] by (simp add: apply_op_def)
qed

lemma used_by_Cons: "used_by sid (x # xs) = used_by sid [x] @ used_by sid xs"
  by (cases x) simp_all

lemma hooked_by_Cons: "hooked_by sid name (x # xs) = hooked_by sid name [x] @ hooked_by sid name xs"
  by (cases x) simp_all

lemma middlewares_apply_ops:
  "sid < length (scopes a) \<Longrightarrow>
   middlewares (scopes (apply_ops a xs) ! sid) = middlewares (scopes a ! sid) @ used_by sid xs"
proof (induction xs arbitrary: a)
  case Nil
  then show ?case by (simp add: apply_ops_def)
next
  case (Cons x xs)
  have len: "sid < length (scopes (apply_op a x))"
    using Cons.prems scopes_apply_op_length[of a x] by simp
  have "middlewares (scopes (apply_ops (apply_op a x) xs) ! sid)
          = (middlewares (scopes a ! sid) @ used_by sid [x]) @ used_by sid xs"
    using Cons.IH[OF len] middlewares_apply_op[OF Cons.prems, of x] by simp
  then show ?case
    using used_by_Cons[of sid x xs] by (simp add: apply_ops_def)
qed


lemma hooks_apply_ops:
  "sid < length (scopes a) \<Longrightarrow> name \<in> set hook_names \<Longrightarrow>
   hook_list (hooks (scopes (apply_ops a xs) ! sid)) name =
     hook_list (hooks (scopes a ! sid)) name @ hooked_by sid name xs"
proof (induction xs arbitrary: a)
  case Nil
  then show ?case by (simp add: apply_ops_def)
next
  case (Cons x xs)
  have len: "sid < length (scopes (apply_op a x))"
    using Cons.prems(1) scopes_apply_op_length[of a x] by simp
  have "hook_list (hooks (scopes (apply_ops (apply_op a x) xs) ! sid)) name
          = (hook_list (hooks (scopes a ! sid)) name @ hooked_by sid name [x]) @ hooked_by sid name xs"
    using Cons.IH[OF len Cons.prems(2)] hooks_apply_op[OF Cons.prems, of x] by simp
  then show ?case
    using hooked_by_Cons[of sid name x xs] by (simp add: apply_ops_def)
qed

lemma new_child_scopes:
  "new_child a pid opt_prefix = (a1, cid) \<Longrightarrow>
   cid = length (scopes a) \<and> length (scopes a1) = Suc (length (scopes a)) \<and>
   (\<forall>i < length (scopes a). scopes a1 ! i = scopes a ! i) \<and>
   middlewares (scopes a1 ! cid) = middlewares (scopes a ! pid) \<and>
   hooks (scopes a1 ! cid) = hooks (scopes a ! pid)"
  by (auto simp: new_child_def Let_def nth_append)

lemma new_child_snapshot:
  assumes "pid < length (scopes a)" and "new_child a pid opt_prefix = (a1, cid)"
  shows "cid = length (scopes a)" and "cid < length (scopes a1)" and "pid < length (scopes a1)"
    and "cid \<noteq> pid"
    and "scopes a1 ! pid = scopes a ! pid"
    and "middlewares (scopes a1 ! cid) = middlewares (scopes a ! pid)"
    and "hook_list (hooks (scopes a1 ! cid)) name = hook_list (hooks (scopes a ! pid)) name"
  using assms(1) new_child_scopes[OF assms(2)] by auto

section \<open>Properties of sending\<close>

lemma res_end_ended: "writableEnded (res_end r chunk)"
  by (simp add: res_end_def)

lemma send_guard: "responded c \<or> writableEnded (res c) \<Longrightarrow> send B inst c data = c"
  by (simp add: send_def)

lemma send_settles:
  assumes "run (c \<lparr> payload := d1 \<rparr>) (onSend (hooks inst)) = (e, c')"
    and "e = None \<or> \<not> headersSent (res c')"
  shows "responded (send B inst c d1) \<or> writableEnded (res (send B inst c d1))"
proof (cases "responded c \<or> writableEnded (res c)")
  case True
  then show ?thesis by (simp add: send_def)
next
  case False
  show ?thesis
  proof (cases e)
    case None
    then show ?thesis using False assms(1) by (simp add: send_def Let_def)
  next
    case (Some err)
    with assms(2) have "\<not> headersSent (res c')" by simp
    then show ?thesis using False assms(1) Some by (simp add: send_def res_end_ended)
  qed
qed

text \<open>
  Claim C7. A call of \<^verbatim>\<open>send\<close> on a context that is marked responded, or whose
  transport has ended, returns the context as it is, whatever the payload and whatever
  hooks the scope has: nothing is written, no header, status, payload or body changes,
  and no hook runs. A completed call of \<^verbatim>\<open>send\<close> leaves the context in such a state
  (unless an \<^verbatim>\<open>onSend\<close> hook threw after the head had been flushed), so a second call
  after it changes nothing.
\<close>

theorem send_is_guarded:
  "(responded c \<or> writableEnded (res c) \<longrightarrow> send B inst c data = c) \<and>
   (fst (run (c \<lparr> payload := d1 \<rparr>) (onSend (hooks inst))) = None \<or>
    \<not> headersSent (res (snd (run (c \<lparr> payload := d1 \<rparr>) (onSend (hooks inst))))) \<longrightarrow>
      send B inst (send B inst c d1) d2 = send B inst c d1)"
proof -
  have one: "responded c \<or> writableEnded (res c) \<longrightarrow> send B inst c data = c"
    by (simp add: send_guard)
  have two: "fst (run (c \<lparr> payload := d1 \<rparr>) (onSend (hooks inst))) = None \<or>
    \<not> headersSent (res (snd (run (c \<lparr> payload := d1 \<rparr>) (onSend (hooks inst))))) \<longrightarrow>
      send B inst (send B inst c d1) d2 = send B inst c d1"
  proof
    assume h: "fst (run (c \<lparr> payload := d1 \<rparr>) (onSend (hooks inst))) = None \<or>
      \<not> headersSent (res (snd (run (c \<lparr> payload := d1 \<rparr>) (onSend (hooks inst)))))"
    have "responded (send B inst c d1) \<or> writableEnded (res (send B inst c d1))"
      by (rule send_settles[OF prod.collapse[symmetric] h])
    then show "send B inst (send B inst c d1) d2 = send B inst c d1"
      by (rule send_guard)
  qed
  from one two show ?thesis by blast
qed

lemma lower_content_type: "toLowerCase ''Content-Type'' = ''content-type''"
  by (simp add: toLowerCase_def)

lemma lower_content_length: "toLowerCase ''Content-Length'' = ''content-length''"
  by (simp add: toLowerCase_def)

lemma fresh_context_res: "res fresh_context = new_response" "responded fresh_context = False"
  by (simp_all add: fresh_context_def createContext_def)

lemma root_scope_hooks: "onSend (hooks root_scope) = []"
  by (simp add: root_scope_def new_root_def)

lemma send_fresh_primitive:
  assumes "typeof v \<noteq> ''object''"
  shows "written (res (send B root_scope fresh_context v)) = [js_String (if truthy v then v else Str [])]"
  using assms
  by (simp add: send_def fresh_context_res root_scope_hooks new_response_def res_getHeader_def
                res_setHeader_def res_writeHead_def res_end_def lower_content_type
                lower_content_length Let_def)

theorem send_is_guarded_witness:
  "send example_builtins root_scope (send example_builtins root_scope fresh_context (Str ''first'')) (Str ''second'')
     = send example_builtins root_scope fresh_context (Str ''first'') \<and>
   written (res (send example_builtins root_scope (send example_builtins root_scope fresh_context (Str ''first'')) (Str ''second'')))
     = [''first''] \<and>
   send example_builtins root_scope (fresh_context \<lparr> responded := True \<rparr>) (Str ''late'')
     = fresh_context \<lparr> responded := True \<rparr>"
proof -
  have run0: "fst (run (fresh_context \<lparr> payload := Str ''first'' \<rparr>) (onSend (hooks root_scope))) = None"
    by (simp add: root_scope_hooks)
  have r: "responded (fresh_context \<lparr> responded := True \<rparr>)" by simp
  from send_is_guarded[of fresh_context example_builtins root_scope "Str ''first''" "Str ''first''" "Str ''second''"] run0
  have twice: "send example_builtins root_scope (send example_builtins root_scope fresh_context (Str ''first'')) (Str ''second'')
     = send example_builtins root_scope fresh_context (Str ''first'')"
    by blast
  from send_is_guarded[of "fresh_context \<lparr> responded := True \<rparr>" example_builtins root_scope "Str ''late''"] r
  have late: "send example_builtins root_scope (fresh_context \<lparr> responded := True \<rparr>) (Str ''late'')
     = fresh_context \<lparr> responded := True \<rparr>"
    by blast
  have "written (res (send example_builtins root_scope fresh_context (Str ''first''))) = [''first'']"
    by (simp add: send_fresh_primitive)
  with twice late show ?thesis by simp
qed

lemma send_writes:
  assumes "\<not> responded c" and "\<not> writableEnded (res c)"
    and "run (c \<lparr> payload := data \<rparr>) (onSend (hooks inst)) = (None, c')"
    and "\<not> writableEnded (res c')"
  shows "written (res (send B inst c data)) =
           written (res c') @
           [if typeof (payload c') = ''object'' \<and> payload c' \<noteq> Null
            then JSON_stringify B (payload c')
            else js_String (if truthy (payload c') then payload c' else Str [])]"
  using assms
  by (simp add: send_def Let_def res_end_def res_writeHead_def res_setHeader_def)

text \<open>
  Claim C8. The body of a payload that is not an object is \<^verbatim>\<open>String(body || '')\<close>, so
  every falsy payload is written as the empty string, not only \<^verbatim>\<open>null\<close> and
  \<^verbatim>\<open>undefined\<close>: sending the number 0 or \<^verbatim>\<open>false\<close> writes an empty body, while their
  string forms are \<open>0\<close> and \<open>false\<close>. The claim does not hold of the code.
\<close>

theorem send_drops_falsy_payload:
  "written (res (send B root_scope fresh_context (Num 0))) = [[]] \<and>
   js_String (Num 0) = ''0'' \<and>
   written (res (send B root_scope fresh_context (Bool False))) = [[]] \<and>
   js_String (Bool False) = ''false'' \<and>
   written (res (send B root_scope fresh_context (Num 7))) = [''7'']"
  by (simp add: send_fresh_primitive show_int_def show_nat.simps)

section \<open>Properties of the default validator\<close>




lemma defaultValidator_no_required:
  "\<not> truthy (get_prop sch ''required'') \<Longrightarrow> defaultValidator sch data = Inr Null"
  by (simp add: defaultValidator_def)



















section \<open>Properties of the lifecycle\<close>











lemma handle_request_routed:
  assumes "find_route a req = Inr (Some (r, ps))"
  shows "handle_request B a this req rs =
           Inr (lifecycle B (rootConfig a) (scopes a ! scope r) (Some (r, ps)) req rs)"
  using assms by (simp add: handle_request_def)







lemma silent_app_scopes:
  "scopes silent_app =
     [\<lparr> parent = None, prefix = [], decorators = [],
        validatorCompiler = defaultValidator,
        middlewares = [],
        hooks = \<lparr> onRequest = [], preValidation = [], preHandler = [], onSend = [],
                  onResponse = [], onError = [], onTimeout = [mark 599] \<rparr> \<rparr>]"
  by (simp add: silent_app_def apply_ops_def apply_op_def addHook_def scopes_addRoute
                new_root_def default_options_def push_hook_def object_prototype_names_def Let_def)

lemma silent_app_config:
  "rootConfig silent_app = \<lparr> timeout = 5000, bodyLimit = 1048576, parseBody = True \<rparr>"
  by (simp add: silent_app_def apply_ops_def apply_op_def addHook_def addRoute_def
                new_root_def default_options_def object_prototype_names_def case_prod_beta Let_def)

lemma silent_app_route:
  "find_route silent_app get_request =
     Inr (Some (\<lparr> handlers = [silent], schema = Null,
                  validators = compile_validators defaultValidator Null, scope = 0 \<rparr>,
                [(''id'', ''7'')]))"
  by (simp add: find_route_def get_request_def silent_app_def apply_ops_def apply_op_def
                addHook_def addRoute_def route_record_def new_root_def default_options_def
                push_hook_def object_prototype_names_def lookup_def insert_def new_Router_def
                new_Node_def new_realm_def path_parts_def startsWith_colon_def slice1_def
                param_Node_def capture_def inherited_def object_of_def proto_def Let_def)

lemma silent_request:
  "handle_request example_builtins silent_app 0 get_request new_response =
     Inr \<lparr> dctx = (createContext (scopes silent_app ! 0) get_request new_response)
                     \<lparr> params := Obj [(''id'', Str ''7'')] \<rparr>,
           timer = Cleared, clears = 1 \<rparr>"
  using handle_request_routed[OF silent_app_route, of example_builtins 0 new_response]
  by (simp add: get_request_def
                silent_app_scopes silent_app_config lifecycle_def initial_context_def
                try_block_def pre_route_def route_phase_def run_phase_def body_phase_def
                parse_body_def validation_phase_def run_validators_def compile_validators_def
                handler_phase_def clearTimeout_def createContext_def silent_def Let_def)

text \<open>
  Claim C9. The request callback clears the timer in its \<^verbatim>\<open>finally\<close> block, which is
  reached as soon as the handlers have returned, whether or not a response has been
  sent. The scope of \<open>silent_app\<close> has an \<^verbatim>\<open>onTimeout\<close> hook and a route whose handler
  returns without sending. A request to that route ends with the context not marked
  responded, nothing written, the transport open and the timer cleared: when the
  configured timeout elapses later, the callback of the timer, whatever it would do,
  does not run, so neither the \<^verbatim>\<open>onTimeout\<close> hooks run nor is a 504 sent, and the
  request stays unanswered. The claim does not hold of the code.
\<close>

theorem unanswered_request_loses_watchdog:
  "onTimeout (hooks (scopes silent_app ! 0)) = [mark 599] \<and>
   (\<exists>d. handle_request example_builtins silent_app 0 get_request new_response = Inr d \<and>
        responded (dctx d) = False \<and>
        written (res (dctx d)) = [] \<and>
        writableEnded (res (dctx d)) = False \<and>
        timer d = Cleared \<and>
        clears d = 1 \<and>
        (\<forall>cb. timer_elapses cb d = d))"
proof -
  let ?d = "\<lparr> dctx = (createContext (scopes silent_app ! 0) get_request new_response)
                     \<lparr> params := Obj [(''id'', Str ''7'')] \<rparr>,
           timer = Cleared, clears = 1 \<rparr>"
  have hooks0: "onTimeout (hooks (scopes silent_app ! 0)) = [mark 599]"
    by (simp add: silent_app_scopes)
  have d: "responded (dctx ?d) = False \<and> written (res (dctx ?d)) = [] \<and>
           writableEnded (res (dctx ?d)) = False \<and> timer ?d = Cleared \<and> clears ?d = 1 \<and>
           (\<forall>cb. timer_elapses cb ?d = ?d)"
    by (simp add: timer_elapses_def createContext_def new_response_def)
  from silent_request d hooks0 show ?thesis by blast
qed

section \<open>Decorators and the context\<close>

lemma decorated_scopes_scopes:
  "scopes decorated_scopes =
     [\<lparr> parent = None, prefix = [], decorators = [(''db'', Str ''conn''), (''cache'', Str ''redis'')],
        validatorCompiler = defaultValidator, middlewares = [],
        hooks = \<lparr> onRequest = [], preValidation = [], preHandler = [], onSend = [],
                  onResponse = [], onError = [], onTimeout = [] \<rparr> \<rparr>,
      \<lparr> parent = Some 0, prefix = ''/api'', decorators = [],
        validatorCompiler = defaultValidator, middlewares = [],
        hooks = \<lparr> onRequest = [], preValidation = [], preHandler = [], onSend = [],
                  onResponse = [], onError = [], onTimeout = [] \<rparr> \<rparr>]"
  by (simp add: decorated_scopes_def apply_ops_def apply_op_def decorate_def register_def
                new_child_def new_root_def default_options_def Let_def)

lemma decorated_app_scopes: "scopes (decorated_app B) = scopes decorated_scopes"
  by (simp add: decorated_app_def apply_ops_def apply_op_def scopes_addRoute decorated_scopes_scopes)

lemma decorated_scopes_routers:
  "routers decorated_scopes =
     [(''GET'', new_Router), (''POST'', new_Router), (''PUT'', new_Router),
      (''DELETE'', new_Router), (''PATCH'', new_Router)]"
  "rootConfig decorated_scopes = \<lparr> timeout = 5000, bodyLimit = 1048576, parseBody = True \<rparr>"
  "realm decorated_scopes = new_realm"
  by (simp_all add: decorated_scopes_def apply_ops_def apply_op_def decorate_def register_def
                new_child_def new_root_def default_options_def Let_def)

lemma decorated_app_config:
  "rootConfig (decorated_app B) = \<lparr> timeout = 5000, bodyLimit = 1048576, parseBody = True \<rparr>"
  by (simp add: decorated_app_def apply_ops_def apply_op_def addRoute_def decorated_scopes_scopes
                decorated_scopes_routers case_prod_beta)

lemma decorated_app_route:
  "find_route (decorated_app B) api_request =
     Inr (Some (\<lparr> handlers = [send_db B], schema = Null,
                  validators = compile_validators defaultValidator Null, scope = 1 \<rparr>,
                [(''id'', ''7'')]))"
  by (simp add: find_route_def api_request_def decorated_app_def apply_ops_def apply_op_def
                addRoute_def route_record_def decorated_scopes_scopes decorated_scopes_routers
                lookup_def insert_def new_Router_def new_Node_def new_realm_def path_parts_def
                startsWith_colon_def slice1_def param_Node_def capture_def inherited_def
                object_prototype_names_def object_of_def proto_def)

lemma api_request_written:
  "\<exists>d. handle_request B (decorated_app B) 0 api_request new_response = Inr d \<and>
       written (res (dctx d)) = [[]] \<and> decorated (dctx d) = []"
  using handle_request_routed[OF decorated_app_route, of B B 0 new_response]
  by (simp add: api_request_def decorated_app_config
                decorated_app_scopes decorated_scopes_scopes lifecycle_def initial_context_def
                try_block_def pre_route_def route_phase_def run_phase_def body_phase_def
                parse_body_def validation_phase_def run_validators_def compile_validators_def
                handler_phase_def clearTimeout_def createContext_def send_db_def field_def
                send_def new_response_def res_getHeader_def res_setHeader_def res_writeHead_def
                res_end_def lower_content_length Let_def)

text \<open>
  Claim C1. The constructor of the context copies the own properties of the scope's
  \<^verbatim>\<open>decorators\<close> object and nothing of its prototype chain. The root scope is
  decorated with \<open>db\<close>, a child scope is registered, and the root is decorated with
  \<open>cache\<close>: reading either name from the child's \<^verbatim>\<open>decorators\<close> object finds it up the
  chain, but a context constructed by the child has neither as a field, while a context
  constructed by the root has them. A request to the child's route whose handler sends
  \<^verbatim>\<open>ctx.db\<close> gets an empty body. The claim does not hold of the code.
\<close>

theorem context_lacks_inherited_decorators:
  "decorators_get decorated_scopes 1 ''db'' = Str ''conn'' \<and>
   decorators_get decorated_scopes 1 ''cache'' = Str ''redis'' \<and>
   decorated (createContext (scopes decorated_scopes ! 1) req rs) = [] \<and>
   field (createContext (scopes decorated_scopes ! 1) req rs) ''db'' = Undefined \<and>
   field (createContext (scopes decorated_scopes ! 1) req rs) ''cache'' = Undefined \<and>
   field (createContext (scopes decorated_scopes ! 0) req rs) ''db'' = Str ''conn'' \<and>
   (\<exists>d. handle_request B (decorated_app B) 0 api_request new_response = Inr d \<and>
        written (res (dctx d)) = [[]])"
  using api_request_written[of B]
  by (auto simp add: decorated_scopes_scopes decorators_get_def createContext_def field_def)

section \<open>What a child scope runs\<close>

lemma run_responded: "responded c \<Longrightarrow> run c hs = (None, c)"
  by (cases hs) simp_all

lemma run_append:
  "run c (xs @ ys) = (case run c xs of (Some e, c') \<Rightarrow> (Some e, c') | (None, c') \<Rightarrow> run c' ys)"
proof (induction xs arbitrary: c)
  case Nil
  show ?case by simp
next
  case (Cons h hs)
  show ?case
  proof (cases "responded c")
    case True
    then show ?thesis by (simp add: run_responded)
  next
    case False
    then show ?thesis using Cons.IH by (auto split: prod.splits option.splits)
  qed
qed

lemma response_phase_responded: "responded c \<Longrightarrow> response_phase inst c = c"
  by (simp add: response_phase_def run_responded)

lemma body_phase_get:
  "req_method req = ''GET'' \<or> req_method req = ''HEAD'' \<Longrightarrow> body_phase B cfg req c = Continue c"
  by (auto simp: body_phase_def parse_body_def)

lemma validation_phase_none:
  "validators m = \<lparr> v_body = None, v_querystring = None, v_params = None \<rparr> \<Longrightarrow>
   validation_phase B sc m c = Continue c"
  by (simp add: validation_phase_def run_validators_def)

text \<open>
  For a request without a body and a route without validators, the \<^verbatim>\<open>try\<close> block is
  one run through the scope's \<^verbatim>\<open>onRequest\<close> hooks, its middlewares, its
  \<^verbatim>\<open>preValidation\<close> and \<^verbatim>\<open>preHandler\<close> hooks and the handlers of the route.
\<close>

lemma try_block_runs_lists:
  assumes "req_method req = ''GET'' \<or> req_method req = ''HEAD''"
    and "validators m = \<lparr> v_body = None, v_querystring = None, v_params = None \<rparr>"
  shows "try_block B cfg sc (Some m) req c =
     (case run c (onRequest (hooks sc) @ middlewares sc @ preValidation (hooks sc) @
                  preHandler (hooks sc) @ handlers m) of
        (Some e, c') \<Rightarrow> Throw e c'
      | (None, c') \<Rightarrow> Return c')"
proof -
  have 1: "pre_route B cfg sc req c = run_phase c (onRequest (hooks sc) @ middlewares sc)"
    unfolding pre_route_def
    by (auto simp: run_phase_def run_append run_responded body_phase_get[OF assms(1)]
             split: prod.splits option.splits)
  have 2: "\<And>c. route_phase B sc m c =
     (case run c (preValidation (hooks sc) @ preHandler (hooks sc) @ handlers m) of
        (Some e, c') \<Rightarrow> Throw e c'
      | (None, c') \<Rightarrow> Return c')"
    unfolding route_phase_def
    by (auto simp: run_phase_def run_append run_responded validation_phase_none[OF assms(2)]
                   handler_phase_def
             split: prod.splits option.splits)
  show ?thesis
    unfolding try_block_def 1
    by (auto simp: 2 run_phase_def run_append run_responded split: prod.splits option.splits)
qed

lemma lifecycle_runs_lists:
  assumes "req_method req = ''GET'' \<or> req_method req = ''HEAD''"
    and "validators m = \<lparr> v_body = None, v_querystring = None, v_params = None \<rparr>"
  shows "lifecycle B cfg sc (Some (m, ps)) req rs =
     \<lparr> dctx = (case run (initial_context sc (Some (m, ps)) req rs)
                       (onRequest (hooks sc) @ middlewares sc @ preValidation (hooks sc) @
                        preHandler (hooks sc) @ handlers m) of
                 (Some e, c') \<Rightarrow> error_phase B sc e c'
               | (None, c') \<Rightarrow> c'),
       timer = Cleared, clears = 1 \<rparr>"
  by (simp add: lifecycle_def clearTimeout_def Let_def try_block_runs_lists[OF assms]
           split: prod.splits option.splits)

lemma lower_x_trace: "toLowerCase ''X-Trace'' = ''x-trace''"
  by (simp add: toLowerCase_def)

lemma hooked_scopes_scopes:
  "scopes hooked_scopes =
     [\<lparr> parent = None, prefix = [], decorators = [],
        validatorCompiler = defaultValidator, middlewares = [tag ''b''],
        hooks = \<lparr> onRequest = [tag ''a''], preValidation = [], preHandler = [], onSend = [],
                  onResponse = [tag ''z''], onError = [], onTimeout = [] \<rparr> \<rparr>,
      \<lparr> parent = Some 0, prefix = ''/api'', decorators = [],
        validatorCompiler = defaultValidator, middlewares = [tag ''c''],
        hooks = \<lparr> onRequest = [tag ''a''], preValidation = [], preHandler = [], onSend = [],
                  onResponse = [tag ''z''], onError = [], onTimeout = [] \<rparr> \<rparr>]"
  by (simp add: hooked_scopes_def apply_ops_def apply_op_def addHook_def use_def register_def
                new_child_def new_root_def default_options_def push_hook_def
                object_prototype_names_def Let_def)

lemma hooked_scopes_routers:
  "routers hooked_scopes =
     [(''GET'', new_Router), (''POST'', new_Router), (''PUT'', new_Router),
      (''DELETE'', new_Router), (''PATCH'', new_Router)]"
  "rootConfig hooked_scopes = \<lparr> timeout = 5000, bodyLimit = 1048576, parseBody = True \<rparr>"
  "realm hooked_scopes = new_realm"
  by (simp_all add: hooked_scopes_def apply_ops_def apply_op_def addHook_def use_def register_def
                new_child_def new_root_def default_options_def push_hook_def
                object_prototype_names_def Let_def)

lemma hooked_app_scopes: "scopes (hooked_app B) = scopes hooked_scopes"
  by (simp add: hooked_app_def apply_ops_def apply_op_def scopes_addRoute hooked_scopes_scopes)

lemma hooked_app_config:
  "rootConfig (hooked_app B) = \<lparr> timeout = 5000, bodyLimit = 1048576, parseBody = True \<rparr>"
  by (simp add: hooked_app_def apply_ops_def apply_op_def addRoute_def hooked_scopes_scopes
                hooked_scopes_routers case_prod_beta)

lemma hooked_app_route:
  "find_route (hooked_app B) api_request =
     Inr (Some (\<lparr> handlers = [send_ok B], schema = Null,
                  validators = compile_validators defaultValidator Null, scope = 1 \<rparr>,
                [(''id'', ''7'')]))"
  by (simp add: find_route_def api_request_def hooked_app_def apply_ops_def apply_op_def
                addRoute_def route_record_def hooked_scopes_scopes hooked_scopes_routers
                lookup_def insert_def new_Router_def new_Node_def new_realm_def path_parts_def
                startsWith_colon_def slice1_def param_Node_def capture_def inherited_def
                object_prototype_names_def object_of_def proto_def)

lemma hooked_request:
  "\<exists>d. handle_request B (hooked_app B) 0 api_request new_response = Inr d \<and>
       res_getHeader (res (dctx d)) ''X-Trace'' = Str ''ac'' \<and>
       written (res (dctx d)) = [''ok''] \<and>
       responded (dctx d) \<and> immediates (dctx d) = 1"
  using handle_request_routed[OF hooked_app_route, of B B 0 new_response]
  by (simp add: api_request_def hooked_app_config
                hooked_app_scopes hooked_scopes_scopes lifecycle_def initial_context_def
                try_block_def pre_route_def route_phase_def run_phase_def body_phase_def
                parse_body_def validation_phase_def run_validators_def compile_validators_def
                handler_phase_def clearTimeout_def createContext_def send_ok_def tag_def
                setHeader_def send_def new_response_def res_getHeader_def res_setHeader_def
                res_writeHead_def res_end_def lower_content_length lower_x_trace Let_def)

text \<open>
  Claim C2. Let \<open>cid\<close> be the child scope created from the scope \<open>pid\<close>, and let any
  sequence \<open>xs\<close> of calls follow, on these and on any other scopes. Then the middleware
  list of the child is the parent's list as it was when the child was created, followed
  by the functions that \<open>xs\<close> adds with \<^verbatim>\<open>use\<close> on the child itself, and each of the
  seven hook lists of the child is the parent's list of that time followed by what
  \<open>xs\<close> adds to it with \<^verbatim>\<open>addHook\<close> on the child itself: nothing that is added to the
  parent later reaches the child. The parent's lists in turn are its lists of that time
  followed by its own additions: nothing that is added to the child reaches the parent.
  A request without a body to a route of the child without validators is one run
  through these lists of the child, in the order \<^verbatim>\<open>onRequest\<close>, middlewares,
  \<^verbatim>\<open>preValidation\<close>, \<^verbatim>\<open>preHandler\<close>, handlers, followed by the error phase of the child
  when one of the functions throws. The \<^verbatim>\<open>onResponse\<close> list is different: the run that
  \<^verbatim>\<open>send\<close> schedules for it starts on a context that is marked responded, so it ends
  before the first function. In \<open>hooked_app\<close> the child runs the \<^verbatim>\<open>onRequest\<close> hook it
  took from the root and its own middleware, not the middleware that the root got later;
  its \<^verbatim>\<open>onResponse\<close> list holds the hook taken from the root, which is never run. So
  the child does not execute every function of its lists, and the claim does not hold of
  the code for \<^verbatim>\<open>onResponse\<close>.
\<close>

theorem child_lists_are_snapshots:
  assumes "pid < length (scopes a)"
    and "new_child a pid opt_prefix = (a1, cid)"
    and "a2 = apply_ops a1 xs"
  shows "middlewares (scopes a2 ! cid) = middlewares (scopes a ! pid) @ used_by cid xs \<and>
         (\<forall>name. name \<in> set hook_names \<longrightarrow>
            hook_list (hooks (scopes a2 ! cid)) name =
              hook_list (hooks (scopes a ! pid)) name @ hooked_by cid name xs) \<and>
         middlewares (scopes a2 ! pid) = middlewares (scopes a ! pid) @ used_by pid xs \<and>
         (\<forall>name. name \<in> set hook_names \<longrightarrow>
            hook_list (hooks (scopes a2 ! pid)) name =
              hook_list (hooks (scopes a ! pid)) name @ hooked_by pid name xs) \<and>
         (\<forall>B this req rs m ps.
            find_route a2 req = Inr (Some (m, ps)) \<and> scope m = cid \<and>
            (req_method req = ''GET'' \<or> req_method req = ''HEAD'') \<and>
            validators m = \<lparr> v_body = None, v_querystring = None, v_params = None \<rparr> \<longrightarrow>
            handle_request B a2 this req rs =
              Inr \<lparr> dctx =
                      (case run (initial_context (scopes a2 ! cid) (Some (m, ps)) req rs)
                             ((onRequest (hooks (scopes a ! pid)) @ hooked_by cid ''onRequest'' xs) @
                              (middlewares (scopes a ! pid) @ used_by cid xs) @
                              (preValidation (hooks (scopes a ! pid)) @ hooked_by cid ''preValidation'' xs) @
                              (preHandler (hooks (scopes a ! pid)) @ hooked_by cid ''preHandler'' xs) @
                              handlers m) of
                         (Some e, c') \<Rightarrow> error_phase B (scopes a2 ! cid) e c'
                       | (None, c') \<Rightarrow> c'),
                    timer = Cleared, clears = 1 \<rparr>) \<and>
         (\<forall>c. responded c \<longrightarrow> response_phase (scopes a2 ! cid) c = c) \<and>
         middlewares (scopes (hooked_app B0) ! 0) = [tag ''b''] \<and>
         middlewares (scopes (hooked_app B0) ! 1) = [tag ''c''] \<and>
         onRequest (hooks (scopes (hooked_app B0) ! 1)) = [tag ''a''] \<and>
         onResponse (hooks (scopes (hooked_app B0) ! 1)) = [tag ''z''] \<and>
         (\<exists>d. handle_request B0 (hooked_app B0) 0 api_request new_response = Inr d \<and>
              res_getHeader (res (dctx d)) ''X-Trace'' = Str ''ac'' \<and>
              responded (dctx d) \<and> immediates (dctx d) = 1 \<and>
              response_phase (scopes (hooked_app B0) ! 1) (dctx d) = dctx d)"
proof -
  note snap = new_child_snapshot[OF assms(1,2)]
  have c: "middlewares (scopes a2 ! cid) = middlewares (scopes a ! pid) @ used_by cid xs"
    using middlewares_apply_ops[OF snap(2), of xs] snap(6) assms(3) by simp
  have p: "middlewares (scopes a2 ! pid) = middlewares (scopes a ! pid) @ used_by pid xs"
    using middlewares_apply_ops[OF snap(3), of xs] snap(5) assms(3) by simp
  have ch: "\<forall>name. name \<in> set hook_names \<longrightarrow>
            hook_list (hooks (scopes a2 ! cid)) name =
              hook_list (hooks (scopes a ! pid)) name @ hooked_by cid name xs"
    using hooks_apply_ops[OF snap(2), of _ xs] snap(7) assms(3) by simp
  have ph: "\<forall>name. name \<in> set hook_names \<longrightarrow>
            hook_list (hooks (scopes a2 ! pid)) name =
              hook_list (hooks (scopes a ! pid)) name @ hooked_by pid name xs"
    using hooks_apply_ops[OF snap(3), of _ xs] snap(5) assms(3) by simp
  have lists: "onRequest (hooks (scopes a2 ! cid)) =
                 onRequest (hooks (scopes a ! pid)) @ hooked_by cid ''onRequest'' xs"
    "preValidation (hooks (scopes a2 ! cid)) =
                 preValidation (hooks (scopes a ! pid)) @ hooked_by cid ''preValidation'' xs"
    "preHandler (hooks (scopes a2 ! cid)) =
                 preHandler (hooks (scopes a ! pid)) @ hooked_by cid ''preHandler'' xs"
    using ch[rule_format, of "''onRequest''"] ch[rule_format, of "''preValidation''"]
          ch[rule_format, of "''preHandler''"]
    by (simp_all add: hook_names_def hook_list_def)
  have ex: "\<forall>B this req rs m ps.
            find_route a2 req = Inr (Some (m, ps)) \<and> scope m = cid \<and>
            (req_method req = ''GET'' \<or> req_method req = ''HEAD'') \<and>
            validators m = \<lparr> v_body = None, v_querystring = None, v_params = None \<rparr> \<longrightarrow>
            handle_request B a2 this req rs =
              Inr \<lparr> dctx =
                      (case run (initial_context (scopes a2 ! cid) (Some (m, ps)) req rs)
                             ((onRequest (hooks (scopes a ! pid)) @ hooked_by cid ''onRequest'' xs) @
                              (middlewares (scopes a ! pid) @ used_by cid xs) @
                              (preValidation (hooks (scopes a ! pid)) @ hooked_by cid ''preValidation'' xs) @
                              (preHandler (hooks (scopes a ! pid)) @ hooked_by cid ''preHandler'' xs) @
                              handlers m) of
                         (Some e, c') \<Rightarrow> error_phase B (scopes a2 ! cid) e c'
                       | (None, c') \<Rightarrow> c'),
                    timer = Cleared, clears = 1 \<rparr>"
  proof (intro allI impI)
    fix B this req rs m ps
    assume h: "find_route a2 req = Inr (Some (m, ps)) \<and> scope m = cid \<and>
            (req_method req = ''GET'' \<or> req_method req = ''HEAD'') \<and>
            validators m = \<lparr> v_body = None, v_querystring = None, v_params = None \<rparr>"
    then have routed: "find_route a2 req = Inr (Some (m, ps))" and sc: "scope m = cid"
      and verb: "req_method req = ''GET'' \<or> req_method req = ''HEAD''"
      and nov: "validators m = \<lparr> v_body = None, v_querystring = None, v_params = None \<rparr>"
      by simp_all
    show "handle_request B a2 this req rs =
              Inr \<lparr> dctx =
                      (case run (initial_context (scopes a2 ! cid) (Some (m, ps)) req rs)
                             ((onRequest (hooks (scopes a ! pid)) @ hooked_by cid ''onRequest'' xs) @
                              (middlewares (scopes a ! pid) @ used_by cid xs) @
                              (preValidation (hooks (scopes a ! pid)) @ hooked_by cid ''preValidation'' xs) @
                              (preHandler (hooks (scopes a ! pid)) @ hooked_by cid ''preHandler'' xs) @
                              handlers m) of
                         (Some e, c') \<Rightarrow> error_phase B (scopes a2 ! cid) e c'
                       | (None, c') \<Rightarrow> c'),
                    timer = Cleared, clears = 1 \<rparr>"
      using handle_request_routed[OF routed, of B this rs]
            lifecycle_runs_lists[OF verb nov, of B "rootConfig a2" "scopes a2 ! cid" ps rs]
      by (simp add: sc c lists)
  qed
  have never: "\<forall>c. responded c \<longrightarrow> response_phase (scopes a2 ! cid) c = c"
    by (simp add: response_phase_responded)
  have ex1: "middlewares (scopes (hooked_app B0) ! 0) = [tag ''b'']"
    "middlewares (scopes (hooked_app B0) ! 1) = [tag ''c'']"
    "onRequest (hooks (scopes (hooked_app B0) ! 1)) = [tag ''a'']"
    "onResponse (hooks (scopes (hooked_app B0) ! 1)) = [tag ''z'']"
    by (simp_all add: hooked_app_scopes hooked_scopes_scopes)
  from hooked_request[of B0] obtain d where
    d: "handle_request B0 (hooked_app B0) 0 api_request new_response = Inr d"
       "res_getHeader (res (dctx d)) ''X-Trace'' = Str ''ac''"
       "responded (dctx d)" "immediates (dctx d) = 1" by blast
  have "response_phase (scopes (hooked_app B0) ! 1) (dctx d) = dctx d"
    using d(3) by (rule response_phase_responded)
  with d have ex2: "\<exists>d. handle_request B0 (hooked_app B0) 0 api_request new_response = Inr d \<and>
              res_getHeader (res (dctx d)) ''X-Trace'' = Str ''ac'' \<and>
              responded (dctx d) \<and> immediates (dctx d) = 1 \<and>
              response_phase (scopes (hooked_app B0) ! 1) (dctx d) = dctx d" by blast
  show ?thesis
    by (rule conjI[OF c conjI[OF ch conjI[OF p conjI[OF ph conjI[OF ex conjI[OF never
          conjI[OF ex1(1) conjI[OF ex1(2) conjI[OF ex1(3) conjI[OF ex1(4) ex2]]]]]]]]]])
qed
theorem child_lists_are_snapshots_witness:
  "middlewares (scopes (apply_ops (fst (new_child (use (new_root default_options) 0 silent) 0 None))
       [Use 0 (mark 201), AddHook 0 ''onSend'' (mark 202), Use 1 (mark 203)]) ! 1)
     = [silent, mark 203] \<and>
   hook_list (hooks (scopes (apply_ops (fst (new_child (use (new_root default_options) 0 silent) 0 None))
       [Use 0 (mark 201), AddHook 0 ''onSend'' (mark 202), Use 1 (mark 203)]) ! 1)) ''onSend''
     = [] \<and>
   middlewares (scopes (apply_ops (fst (new_child (use (new_root default_options) 0 silent) 0 None))
       [Use 0 (mark 201), AddHook 0 ''onSend'' (mark 202), Use 1 (mark 203)]) ! 0)
     = [silent, mark 201]"
proof -
  let ?a = "use (new_root default_options) 0 silent"
  let ?xs = "[Use 0 (mark 201), AddHook 0 ''onSend'' (mark 202), Use 1 (mark 203)]"
  have len: "0 < length (scopes ?a)" by (simp add: use_def new_root_def Let_def)
  have cid: "snd (new_child ?a 0 None) = 1" by (simp add: new_child_def use_def new_root_def Let_def)
  have nc: "new_child ?a 0 None = (fst (new_child ?a 0 None), 1)"
    using cid by (metis prod.collapse)
  have p: "middlewares (scopes ?a ! 0) = [silent]" "hook_list (hooks (scopes ?a ! 0)) ''onSend'' = []"
    by (simp_all add: use_def new_root_def Let_def hook_list_def)
  have n: "''onSend'' \<in> set hook_names" by (simp add: hook_names_def)
  from child_lists_are_snapshots[OF len nc refl, of ?xs] p n
  show ?thesis by simp
qed

section \<open>The default validator in a route\<close>







end
